theory Spec2Isabelle
  imports Main "HOL-Library.Multiset" "HOL-Library.List_Lexorder"
begin

section \<open>Twelve-tone rows: data model\<close>

text \<open>
  The analyser works on NumPy integer arrays. A one-dimensional array is modelled as an
  \<open>int list\<close>, the 12 x 12 matrix as a list of rows. Python's \<open>%\<close> with a positive
  modulus is the floor modulus, which is \<open>mod\<close> on \<open>int\<close>.

  Both failures of \<open>tonerow_class.py\<close> are Python \<open>ValueError\<close>s that differ only in their
  message; \<open>IndexError\<close> is what an out-of-range read raises.
\<close>

datatype error = ValueError string | IndexError

definition InvalidRow :: error where
  "InvalidRow = ValueError ''provided tone row is not valid''"

definition RangeError :: error where
  "RangeError = ValueError ''Interval size must be between -11 and 11''"

text \<open>\<open>ToneRow.is_valid_tonerow\<close>: the size is 12 and the set of values is \<open>set(range(12))\<close>.\<close>

definition is_valid_tonerow :: "int list \<Rightarrow> bool" where
  "is_valid_tonerow toneRow =
     (let has_correct_length = (length toneRow = 12);
          contains_all_pitch_classes = (set toneRow = set [0..11])
      in has_correct_length \<and> contains_all_pitch_classes)"

text \<open>
  \<open>ToneRow.twelvetone_matrix\<close>. The matrix starts as twelve rows of zeros, row 0 is
  overwritten by a copy of the prime row and the loop overwrites rows 1 to 11. Assigning a
  row of another length to \<open>tt_matrix[0]\<close> fails to broadcast (a \<open>ValueError\<close>), except for
  a row of length one, which broadcasts and then fails at \<open>inversion_row[1]\<close>.
\<close>

definition twelvetone_matrix :: "int list \<Rightarrow> error + int list list" where
  "twelvetone_matrix primeRow =
     (if length primeRow = 12 then
        (let tt_matrix = (replicate 12 (replicate 12 (0::int)))[0 := primeRow];
             inversion_row = map (\<lambda>x. (- x) mod 12) primeRow
         in Inr (foldl (\<lambda>m i.
                   let transposition_interval = (inversion_row ! i - inversion_row ! 0) mod 12
                   in m[i := map (\<lambda>x. (x + transposition_interval) mod 12) primeRow])
                 tt_matrix [1..<12]))
      else if length primeRow = 1 then Inl IndexError
      else Inl (ValueError ''could not broadcast input array''))"

text \<open>
  The class \<open>ToneRow\<close> has the private field \<open>__matrix\<close> only. Its constructor is the one
  way to build an object, so every \<open>ToneRow\<close> holds the matrix of a valid row.
\<close>

record ToneRow =
  matrix :: "int list list"

definition ToneRow_init :: "int list \<Rightarrow> error + ToneRow" where
  "ToneRow_init primeRow =
     (if \<not> is_valid_tonerow primeRow then Inl InvalidRow
      else (case twelvetone_matrix primeRow of
              Inl e \<Rightarrow> Inl e
            | Inr m \<Rightarrow> Inr \<lparr>matrix = m\<rparr>))"

text \<open>\<open>matrix[:, j]\<close>, the j-th column read from top to bottom.\<close>

definition column :: "int list list \<Rightarrow> nat \<Rightarrow> int list" where
  "column m j = map (\<lambda>row. row ! j) m"

definition prime_row :: "ToneRow \<Rightarrow> int list" where
  "prime_row tr = matrix tr ! 0"

definition inversion :: "ToneRow \<Rightarrow> int list" where
  "inversion tr = column (matrix tr) 0"

definition retrograde :: "ToneRow \<Rightarrow> int list" where
  "retrograde tr = rev (matrix tr ! 0)"

definition retrograde_inversion :: "ToneRow \<Rightarrow> int list" where
  "retrograde_inversion tr = rev (column (matrix tr) 0)"

section \<open>Transposition on a store\<close>

text \<open>
  \<open>ToneRow.transpose_row\<close> binds \<open>transposed_tonerow\<close> to the array it was given and then
  updates it with \<open>+=\<close> and \<open>%=\<close>, which NumPy performs in place. Arrays therefore live in
  a store, a parameter is an address, and the function returns the new store together
  with the address of its result.
\<close>

type_synonym addr = nat

type_synonym store = "addr \<Rightarrow> int list"

definition transpose_row :: "store \<Rightarrow> addr \<Rightarrow> int \<Rightarrow> error + (store \<times> addr)" where
  "transpose_row s primeRow intervalSize =
     (if \<not> is_valid_tonerow (s primeRow) then Inl InvalidRow
      else if intervalSize < - 11 \<or> intervalSize > 11 then Inl RangeError
      else
        (let converted_interval_size = intervalSize;
             converted_interval_size = converted_interval_size + 12;
             converted_interval_size = converted_interval_size mod 12;
             transposed_tonerow = primeRow;
             s = s(transposed_tonerow := map (\<lambda>x. x + converted_interval_size) (s transposed_tonerow));
             s = s(transposed_tonerow := map (\<lambda>x. x mod 12) (s transposed_tonerow))
         in Inr (s, transposed_tonerow)))"

section \<open>Labels\<close>

text \<open>
  A label is the f-string \<open>f"P{level}"\<close>: the letters of the operation followed by the
  decimal digits of the level, without leading zeros.
\<close>

fun str_nat :: "nat \<Rightarrow> string" where
  "str_nat n = (if n < 10 then [''0123456789'' ! n]
                else str_nat (n div 10) @ [''0123456789'' ! (n mod 10)])"

declare str_nat.simps [simp del]

definition str_int :: "int \<Rightarrow> string" where
  "str_int i = (if i < 0 then CHR ''-'' # str_nat (nat (- i)) else str_nat (nat i))"

text \<open>Python's \<open>xs[a:b]\<close> for \<open>0 \<le> a \<le> b\<close>.\<close>

definition slice :: "nat \<Rightarrow> nat \<Rightarrow> 'a list \<Rightarrow> 'a list" where
  "slice a b xs = drop a (take b xs)"

section \<open>Hexachordal combinatoriality\<close>

text \<open>
  The four detectors of \<open>CombinatorialHexachords\<close>. Each loop appends to
  \<open>combinatorials_list\<close>; a \<open>continue\<close> leaves the list as it is. A detector is given a
  \<open>ToneRow\<close> object, whose matrix has twelve rows of twelve entries, so every index read
  below is in range; \<open>p_row[6:]\<close> is \<open>drop 6\<close> and \<open>p_row[-1]\<close> is \<open>last\<close>.
\<close>

definition hexachords_prime_combinatorials :: "ToneRow \<Rightarrow> string list" where
  "hexachords_prime_combinatorials toneRow =
     (let m = matrix toneRow;
          first_note_p0 = prime_row toneRow ! 0;
          first_hexachord_p0 = set (take 6 (m ! 0))
      in foldl (\<lambda>combinatorials_list p_row.
           let first_hexachord_prime = set (take 6 p_row)
           in if \<not> (first_hexachord_prime \<inter> first_hexachord_p0 = {}) then combinatorials_list
              else
                let first_note_current = p_row ! 0;
                    transposition_level = first_note_current - first_note_p0;
                    transposition_level = transposition_level + 12;
                    transposition_level = transposition_level mod 12
                in if transposition_level = 0 then combinatorials_list
                   else combinatorials_list @ [''P'' @ str_int transposition_level])
         [] m)"

definition hexachords_retrograde_combinatorials :: "ToneRow \<Rightarrow> string list" where
  "hexachords_retrograde_combinatorials toneRow =
     (let m = matrix toneRow;
          first_note_r0 = retrograde toneRow ! 0;
          first_hexachord_p0 = set (take 6 (m ! 0))
      in foldl (\<lambda>combinatorials_list p_row.
           let first_hexachord_retrograde = set (drop 6 p_row)
           in if \<not> (first_hexachord_retrograde \<inter> first_hexachord_p0 = {}) then combinatorials_list
              else
                let first_note_current = last p_row;
                    transposition_level = first_note_current - first_note_r0;
                    transposition_level = transposition_level + 12;
                    transposition_level = transposition_level mod 12
                in if transposition_level = 0 then combinatorials_list
                   else combinatorials_list @ [''R'' @ str_int transposition_level])
         [] m)"

definition hexachords_inversion_combinatorials :: "ToneRow \<Rightarrow> string list" where
  "hexachords_inversion_combinatorials toneRow =
     (let m = matrix toneRow;
          first_note_i0 = inversion toneRow ! 0;
          first_hexachord_p0 = set (take 6 (m ! 0))
      in foldl (\<lambda>combinatorials_list col_index.
           let inversion_form = column m col_index;
               first_hexachord_inversion = set (take 6 inversion_form)
           in if \<not> (first_hexachord_inversion \<inter> first_hexachord_p0 = {}) then combinatorials_list
              else
                let first_note_current_inversion = inversion_form ! 0;
                    inversion_level = first_note_current_inversion - first_note_i0;
                    inversion_level = inversion_level + 12;
                    inversion_level = inversion_level mod 12
                in if inversion_level = 0 then combinatorials_list
                   else combinatorials_list @ [''I'' @ str_int inversion_level])
         [] [0..<length m])"

definition hexachords_retrograde_inversion_combinatorials :: "ToneRow \<Rightarrow> string list" where
  "hexachords_retrograde_inversion_combinatorials toneRow =
     (let m = matrix toneRow;
          first_note_ri0 = retrograde_inversion toneRow ! 0;
          first_hexachord_p0 = set (take 6 (m ! 0))
      in foldl (\<lambda>combinatorials_list col_index.
           let ri_form = column m col_index;
               ri_form = rev ri_form;
               first_hexachord_ri = set (take 6 ri_form)
           in if \<not> (first_hexachord_ri \<inter> first_hexachord_p0 = {}) then combinatorials_list
              else
                let first_note_current_ri = ri_form ! 0;
                    ri_level = first_note_current_ri - first_note_ri0;
                    ri_level = ri_level + 12;
                    ri_level = ri_level mod 12
                in if ri_level = 0 then combinatorials_list
                   else combinatorials_list @ [''RI'' @ str_int ri_level])
         [] [0..<length m])"

section \<open>Tetrachordal and trichordal combinatoriality\<close>

text \<open>
  The block that every tetrachord and trichord detector repeats for each segment of P0
  but the last: scan the remaining segments of the candidate for one equal to the segment
  of P0, remove it (\<open>list.remove\<close> deletes the first equal element) and go on, or give
  the candidate up when there is none.
\<close>

fun found_match :: "'a \<Rightarrow> 'a list \<Rightarrow> bool" where
  "found_match segment_p0 [] = False"
| "found_match segment_p0 (segment # segments) =
     (if segment_p0 = segment then True else found_match segment_p0 segments)"

definition find_and_remove :: "'a \<Rightarrow> 'a list \<Rightarrow> 'a list option" where
  "find_and_remove segment_p0 segments =
     (if found_match segment_p0 segments then Some (remove1 segment_p0 segments) else None)"

definition tetrachords_prime_combinatorials :: "ToneRow \<Rightarrow> string list" where
  "tetrachords_prime_combinatorials toneRow =
     (let m = matrix toneRow;
          first_note_p0 = prime_row toneRow ! 0;
          first_tetrachord_p0 = set (slice 0 4 (m ! 0));
          second_tetrachord_p0 = set (slice 4 8 (m ! 0));
          third_tetrachord_p0 = set (slice 8 12 (m ! 0))
      in foldl (\<lambda>combinatorials_list prime_row_transposition.
           let tetrachords = [set (slice 0 4 prime_row_transposition),
                              set (slice 4 8 prime_row_transposition),
                              set (slice 8 12 prime_row_transposition)]
           in
           (case find_and_remove first_tetrachord_p0 tetrachords of
              None \<Rightarrow> combinatorials_list
            | Some tetrachords \<Rightarrow>
             (case find_and_remove second_tetrachord_p0 tetrachords of
                None \<Rightarrow> combinatorials_list
              | Some tetrachords \<Rightarrow>
               if length tetrachords \<noteq> 1 then combinatorials_list
               else if \<not> (third_tetrachord_p0 = tetrachords ! 0) then combinatorials_list
               else
                 let first_note_current = prime_row_transposition ! 0;
                     level = first_note_current - first_note_p0;
                     level = level + 12;
                     level = level mod 12
                 in if level = 0 then combinatorials_list
                    else combinatorials_list @ [''P'' @ str_int level])))
         [] m)"

definition tetrachords_retrograde_combinatorials :: "ToneRow \<Rightarrow> string list" where
  "tetrachords_retrograde_combinatorials toneRow =
     (let m = matrix toneRow;
          first_note_r0 = retrograde toneRow ! 0;
          first_tetrachord_p0 = set (slice 0 4 (m ! 0));
          second_tetrachord_p0 = set (slice 4 8 (m ! 0));
          third_tetrachord_p0 = set (slice 8 12 (m ! 0))
      in foldl (\<lambda>combinatorials_list prime_row_transposition.
           let retrograde_form = rev prime_row_transposition;
               tetrachords = [set (slice 0 4 retrograde_form),
                              set (slice 4 8 retrograde_form),
                              set (slice 8 12 retrograde_form)]
           in
           (case find_and_remove first_tetrachord_p0 tetrachords of
              None \<Rightarrow> combinatorials_list
            | Some tetrachords \<Rightarrow>
             (case find_and_remove second_tetrachord_p0 tetrachords of
                None \<Rightarrow> combinatorials_list
              | Some tetrachords \<Rightarrow>
               if length tetrachords \<noteq> 1 then combinatorials_list
               else if \<not> (third_tetrachord_p0 = tetrachords ! 0) then combinatorials_list
               else
                 let first_note_current = retrograde_form ! 0;
                     level = first_note_current - first_note_r0;
                     level = level + 12;
                     level = level mod 12
                 in if level = 0 then combinatorials_list
                    else combinatorials_list @ [''R'' @ str_int level])))
         [] m)"

definition tetrachords_inversion_combinatorials :: "ToneRow \<Rightarrow> string list" where
  "tetrachords_inversion_combinatorials toneRow =
     (let m = matrix toneRow;
          first_note_i0 = inversion toneRow ! 0;
          first_tetrachord_p0 = set (slice 0 4 (m ! 0));
          second_tetrachord_p0 = set (slice 4 8 (m ! 0));
          third_tetrachord_p0 = set (slice 8 12 (m ! 0))
      in foldl (\<lambda>combinatorials_list col_index.
           let inversion_form = column m col_index;
               tetrachords = [set (slice 0 4 inversion_form),
                              set (slice 4 8 inversion_form),
                              set (slice 8 12 inversion_form)]
           in
           (case find_and_remove first_tetrachord_p0 tetrachords of
              None \<Rightarrow> combinatorials_list
            | Some tetrachords \<Rightarrow>
             (case find_and_remove second_tetrachord_p0 tetrachords of
                None \<Rightarrow> combinatorials_list
              | Some tetrachords \<Rightarrow>
               if length tetrachords \<noteq> 1 then combinatorials_list
               else if \<not> (third_tetrachord_p0 = tetrachords ! 0) then combinatorials_list
               else
                 let first_note_current = inversion_form ! 0;
                     level = first_note_current - first_note_i0;
                     level = level + 12;
                     level = level mod 12
                 in combinatorials_list @ [''I'' @ str_int level])))
         [] [0..<length m])"

definition tetrachords_retrograde_inversion_combinatorials :: "ToneRow \<Rightarrow> string list" where
  "tetrachords_retrograde_inversion_combinatorials toneRow =
     (let m = matrix toneRow;
          first_note_ri0 = retrograde_inversion toneRow ! 0;
          first_tetrachord_p0 = set (slice 0 4 (m ! 0));
          second_tetrachord_p0 = set (slice 4 8 (m ! 0));
          third_tetrachord_p0 = set (slice 8 12 (m ! 0))
      in foldl (\<lambda>combinatorials_list col_index.
           let inversion_form = column m col_index;
               retrograde_inversion_form = rev inversion_form;
               tetrachords = [set (slice 0 4 retrograde_inversion_form),
                              set (slice 4 8 retrograde_inversion_form),
                              set (slice 8 12 retrograde_inversion_form)]
           in
           (case find_and_remove first_tetrachord_p0 tetrachords of
              None \<Rightarrow> combinatorials_list
            | Some tetrachords \<Rightarrow>
             (case find_and_remove second_tetrachord_p0 tetrachords of
                None \<Rightarrow> combinatorials_list
              | Some tetrachords \<Rightarrow>
               if length tetrachords \<noteq> 1 then combinatorials_list
               else if \<not> (third_tetrachord_p0 = tetrachords ! 0) then combinatorials_list
               else
                 let first_note_current = retrograde_inversion_form ! 0;
                     level = first_note_current - first_note_ri0;
                     level = level + 12;
                     level = level mod 12
                 in combinatorials_list @ [''RI'' @ str_int level])))
         [] [0..<length m])"

definition trichords_prime_combinatorials :: "ToneRow \<Rightarrow> string list" where
  "trichords_prime_combinatorials toneRow =
     (let m = matrix toneRow;
          first_note_p0 = prime_row toneRow ! 0;
          first_trichord_p0 = set (slice 0 3 (m ! 0));
          second_trichord_p0 = set (slice 3 6 (m ! 0));
          third_trichord_p0 = set (slice 6 9 (m ! 0));
          fourth_trichord_p0 = set (slice 9 12 (m ! 0))
      in foldl (\<lambda>combinatorials_list prime_row_transposition.
           let trichords = [set (slice 0 3 prime_row_transposition),
                            set (slice 3 6 prime_row_transposition),
                            set (slice 6 9 prime_row_transposition),
                            set (slice 9 12 prime_row_transposition)]
           in
           (case find_and_remove first_trichord_p0 trichords of
              None \<Rightarrow> combinatorials_list
            | Some trichords \<Rightarrow>
             (case find_and_remove second_trichord_p0 trichords of
                None \<Rightarrow> combinatorials_list
              | Some trichords \<Rightarrow>
               (case find_and_remove third_trichord_p0 trichords of
                  None \<Rightarrow> combinatorials_list
                | Some trichords \<Rightarrow>
                 if length trichords \<noteq> 1 then combinatorials_list
                 else if \<not> (fourth_trichord_p0 = trichords ! 0) then combinatorials_list
                 else
                   let first_note_current = prime_row_transposition ! 0;
                       level = first_note_current - first_note_p0;
                       level = level + 12;
                       level = level mod 12
                   in if level = 0 then combinatorials_list
                      else combinatorials_list @ [''P'' @ str_int level]))))
         [] m)"

definition trichords_retrograde_combinatorials :: "ToneRow \<Rightarrow> string list" where
  "trichords_retrograde_combinatorials toneRow =
     (let m = matrix toneRow;
          first_note_r0 = retrograde toneRow ! 0;
          first_trichord_p0 = set (slice 0 3 (m ! 0));
          second_trichord_p0 = set (slice 3 6 (m ! 0));
          third_trichord_p0 = set (slice 6 9 (m ! 0));
          fourth_trichord_p0 = set (slice 9 12 (m ! 0))
      in foldl (\<lambda>combinatorials_list prime_row_transposition.
           let retrograde_form = rev prime_row_transposition;
               trichords = [set (slice 0 3 retrograde_form),
                            set (slice 3 6 retrograde_form),
                            set (slice 6 9 retrograde_form),
                            set (slice 9 12 retrograde_form)]
           in
           (case find_and_remove first_trichord_p0 trichords of
              None \<Rightarrow> combinatorials_list
            | Some trichords \<Rightarrow>
             (case find_and_remove second_trichord_p0 trichords of
                None \<Rightarrow> combinatorials_list
              | Some trichords \<Rightarrow>
               (case find_and_remove third_trichord_p0 trichords of
                  None \<Rightarrow> combinatorials_list
                | Some trichords \<Rightarrow>
                 if length trichords \<noteq> 1 then combinatorials_list
                 else if \<not> (fourth_trichord_p0 = trichords ! 0) then combinatorials_list
                 else
                   let first_note_current = retrograde_form ! 0;
                       level = first_note_current - first_note_r0;
                       level = level + 12;
                       level = level mod 12
                   in if level = 0 then combinatorials_list
                      else combinatorials_list @ [''R'' @ str_int level]))))
         [] m)"

definition trichords_inversion_combinatorials :: "ToneRow \<Rightarrow> string list" where
  "trichords_inversion_combinatorials toneRow =
     (let m = matrix toneRow;
          first_note_i0 = inversion toneRow ! 0;
          first_trichord_p0 = set (slice 0 3 (m ! 0));
          second_trichord_p0 = set (slice 3 6 (m ! 0));
          third_trichord_p0 = set (slice 6 9 (m ! 0));
          fourth_trichord_p0 = set (slice 9 12 (m ! 0))
      in foldl (\<lambda>combinatorials_list col_index.
           let inversion_form = column m col_index;
               trichords = [set (slice 0 3 inversion_form),
                            set (slice 3 6 inversion_form),
                            set (slice 6 9 inversion_form),
                            set (slice 9 12 inversion_form)]
           in
           (case find_and_remove first_trichord_p0 trichords of
              None \<Rightarrow> combinatorials_list
            | Some trichords \<Rightarrow>
             (case find_and_remove second_trichord_p0 trichords of
                None \<Rightarrow> combinatorials_list
              | Some trichords \<Rightarrow>
               (case find_and_remove third_trichord_p0 trichords of
                  None \<Rightarrow> combinatorials_list
                | Some trichords \<Rightarrow>
                 if length trichords \<noteq> 1 then combinatorials_list
                 else if \<not> (fourth_trichord_p0 = trichords ! 0) then combinatorials_list
                 else
                   let first_note_current = inversion_form ! 0;
                       level = first_note_current - first_note_i0;
                       level = level + 12;
                       level = level mod 12
                   in combinatorials_list @ [''I'' @ str_int level]))))
         [] [0..<length m])"

definition trichords_retrograde_inversion_combinatorials :: "ToneRow \<Rightarrow> string list" where
  "trichords_retrograde_inversion_combinatorials toneRow =
     (let m = matrix toneRow;
          first_note_ri0 = retrograde_inversion toneRow ! 0;
          first_trichord_p0 = set (slice 0 3 (m ! 0));
          second_trichord_p0 = set (slice 3 6 (m ! 0));
          third_trichord_p0 = set (slice 6 9 (m ! 0));
          fourth_trichord_p0 = set (slice 9 12 (m ! 0))
      in foldl (\<lambda>combinatorials_list col_index.
           let inversion_form = column m col_index;
               retrograde_inversion_form = rev inversion_form;
               trichords = [set (slice 0 3 retrograde_inversion_form),
                            set (slice 3 6 retrograde_inversion_form),
                            set (slice 6 9 retrograde_inversion_form),
                            set (slice 9 12 retrograde_inversion_form)]
           in
           (case find_and_remove first_trichord_p0 trichords of
              None \<Rightarrow> combinatorials_list
            | Some trichords \<Rightarrow>
             (case find_and_remove second_trichord_p0 trichords of
                None \<Rightarrow> combinatorials_list
              | Some trichords \<Rightarrow>
               (case find_and_remove third_trichord_p0 trichords of
                  None \<Rightarrow> combinatorials_list
                | Some trichords \<Rightarrow>
                 if length trichords \<noteq> 1 then combinatorials_list
                 else if \<not> (fourth_trichord_p0 = trichords ! 0) then combinatorials_list
                 else
                   let first_note_current = retrograde_inversion_form ! 0;
                       level = first_note_current - first_note_ri0;
                       level = level + 12;
                       level = level mod 12
                   in combinatorials_list @ [''RI'' @ str_int level]))))
         [] [0..<length m])"

section \<open>Enumeration of the rows that start on 0\<close>

text \<open>
  \<open>itertools.permutations\<close> belongs to Python's standard library. By its documentation
  the tuples are emitted in lexicographic order according to the order of the input, and
  elements are told apart by their position, not by their value. The model takes each
  position of the pool in turn, from left to right, as the first element, followed by the
  permutations of the pool without that position.
\<close>

definition delete_nth :: "nat \<Rightarrow> 'a list \<Rightarrow> 'a list" where
  "delete_nth i pool = take i pool @ drop (Suc i) pool"

function permutations :: "'a list \<Rightarrow> 'a list list" where
  "permutations [] = [[]]"
| "permutations (x # xs) =
     concat (map (\<lambda>i. map ((#) ((x # xs) ! i)) (permutations (delete_nth i (x # xs))))
               [0..<length (x # xs)])"
  by pat_completeness auto
termination
  by (relation "measure length") (auto simp: delete_nth_def)

text \<open>
  \<open>ToneRow.tonerows_starting_with_zero_iterator\<close> is a generator; the model is the list of
  the rows it yields, in the order it yields them. Each permutation has eleven elements,
  so the slice assignment \<open>row[1:] = perm\<close> replaces all of the row after its first element.
\<close>

definition tonerows_starting_with_zero_iterator :: "int list list" where
  "tonerows_starting_with_zero_iterator =
     (let remaining_pitches = [1..11]
      in map (\<lambda>perm.
                let row = replicate 12 (0::int);
                    row = row[0 := 0];
                    row = take 1 row @ perm
                in row)
           (permutations remaining_pitches))"

section \<open>The detector as the specification describes it\<close>

text \<open>
  The specification describes one detector \<open>Detect\<close> for the four kinds of operation and
  the three segment sizes. The candidate forms of a kind are the rows of the matrix (P),
  the reversed rows (R), the columns (I) and the reversed columns (RI); the reference forms
  are P0, R0, I0 and RI0. The level of a candidate is the first note of the candidate minus
  the first note of the reference form, plus 12, modulo 12.

  \<open>Partition\<close> cuts a row into consecutive segments and turns each into a set.
  \<open>MatchesAsMultiset\<close> holds when the candidate's segments are the same unordered
  collection of sets as the reference's. For segments of six the test is that the first
  segment of the candidate is disjoint from the first segment of P0. Level 0 is left out
  for segments of six, and for P and R at every size.
\<close>

datatype kind = KP | KR | KI | KRI

fun kind_name :: "kind \<Rightarrow> string" where
  "kind_name KP = ''P''"
| "kind_name KR = ''R''"
| "kind_name KI = ''I''"
| "kind_name KRI = ''RI''"

fun candidate_forms :: "kind \<Rightarrow> int list list \<Rightarrow> int list list" where
  "candidate_forms KP m = m"
| "candidate_forms KR m = map rev m"
| "candidate_forms KI m = map (column m) [0..<12]"
| "candidate_forms KRI m = map (\<lambda>j. rev (column m j)) [0..<12]"

fun reference_form :: "kind \<Rightarrow> ToneRow \<Rightarrow> int list" where
  "reference_form KP tr = prime_row tr"
| "reference_form KR tr = retrograde tr"
| "reference_form KI tr = inversion tr"
| "reference_form KRI tr = retrograde_inversion tr"

definition level :: "int list \<Rightarrow> int list \<Rightarrow> int" where
  "level candidate reference = (candidate ! 0 - reference ! 0 + 12) mod 12"

definition Partition :: "int list \<Rightarrow> nat \<Rightarrow> int set list" where
  "Partition row segmentSize =
     map (\<lambda>i. set (slice (i * segmentSize) (i * segmentSize + segmentSize) row))
       [0..<12 div segmentSize]"

definition MatchesAsMultiset :: "int set list \<Rightarrow> int set list \<Rightarrow> bool" where
  "MatchesAsMultiset candidateSegments referenceSegments \<longleftrightarrow>
     mset candidateSegments = mset referenceSegments"

definition combinatorial :: "nat \<Rightarrow> int list \<Rightarrow> int list \<Rightarrow> bool" where
  "combinatorial segmentSize candidate p0 =
     (if segmentSize = 6 then hd (Partition candidate 6) \<inter> hd (Partition p0 6) = {}
      else MatchesAsMultiset (Partition candidate segmentSize) (Partition p0 segmentSize))"

definition excludes_level_0 :: "nat \<Rightarrow> kind \<Rightarrow> bool" where
  "excludes_level_0 segmentSize K = (segmentSize = 6 \<or> K = KP \<or> K = KR)"

definition Detect :: "ToneRow \<Rightarrow> nat \<Rightarrow> kind \<Rightarrow> string list" where
  "Detect tr segmentSize K =
     map (\<lambda>form. kind_name K @ str_int (level form (reference_form K tr)))
       (filter (\<lambda>form. combinatorial segmentSize form (prime_row tr) \<and>
                        \<not> (excludes_level_0 segmentSize K \<and> level form (reference_form K tr) = 0))
          (candidate_forms K (matrix tr)))"

section \<open>Example objects\<close>

text \<open>A store with the identity row at address 0 and an empty array everywhere else.\<close>

definition identity_store :: store where
  "identity_store = (\<lambda>a. [])(0 := [0, 1, 2, 3, 4, 5, 6, 7, 8, 9, 10, 11])"

text \<open>The \<open>ToneRow\<close> objects of the identity row and of a row whose inversion I0 keeps the trichords of P0.\<close>

definition identity_tonerow :: ToneRow where
  "identity_tonerow = projr (ToneRow_init [0, 1, 2, 3, 4, 5, 6, 7, 8, 9, 10, 11])"

definition example_tonerow :: ToneRow where
  "example_tonerow = projr (ToneRow_init [0, 1, 11, 2, 3, 4, 5, 6, 7, 8, 9, 10])"

section \<open>Validation\<close>

lemma is_valid_tonerow_iff:
  "is_valid_tonerow row \<longleftrightarrow> length row = 12 \<and> set row = {0..11}"
  by (simp add: is_valid_tonerow_def Let_def)

lemma valid_distinct:
  assumes "is_valid_tonerow row"
  shows "distinct row"
proof -
  have "card (set row) = 12" using assms by (simp add: is_valid_tonerow_iff)
  moreover have "length row = 12" using assms by (simp add: is_valid_tonerow_iff)
  ultimately show ?thesis by (simp add: card_distinct)
qed

lemma twelvetone_matrix_total:
  "length primeRow = 12 \<Longrightarrow> \<exists>m. twelvetone_matrix primeRow = Inr m"
  by (simp add: twelvetone_matrix_def Let_def)

text \<open>
  Claim C7. Constructing a \<open>ToneRow\<close> succeeds exactly when the input has twelve elements
  and its set of values is \<open>{0..11}\<close>; an input of another length, with a duplicate or
  with a value outside \<open>0..11\<close> is rejected with the invalid-row error.
\<close>

theorem construct_succeeds_iff_valid:
  "((\<exists>tr. ToneRow_init row = Inr tr) \<longleftrightarrow> length row = 12 \<and> set row = {0..11}) \<and>
   (length row \<noteq> 12 \<or> \<not> distinct row \<or> (\<exists>x \<in> set row. x < 0 \<or> 11 < x)
      \<longrightarrow> ToneRow_init row = Inl InvalidRow)"
proof (intro conjI impI)
  show "(\<exists>tr. ToneRow_init row = Inr tr) \<longleftrightarrow> length row = 12 \<and> set row = {0..11}"
  proof
    assume "\<exists>tr. ToneRow_init row = Inr tr"
    then have "is_valid_tonerow row"
      by (auto simp: ToneRow_init_def split: if_splits)
    then show "length row = 12 \<and> set row = {0..11}"
      by (simp add: is_valid_tonerow_iff)
  next
    assume v: "length row = 12 \<and> set row = {0..11}"
    then obtain m where "twelvetone_matrix row = Inr m"
      using twelvetone_matrix_total by blast
    with v show "\<exists>tr. ToneRow_init row = Inr tr"
      by (simp add: ToneRow_init_def is_valid_tonerow_iff)
  qed
next
  assume bad: "length row \<noteq> 12 \<or> \<not> distinct row \<or> (\<exists>x \<in> set row. x < 0 \<or> 11 < x)"
  have "\<not> is_valid_tonerow row"
  proof
    assume v: "is_valid_tonerow row"
    then have "length row = 12" and "set row = {0..11}" and "distinct row"
      by (simp_all add: is_valid_tonerow_iff valid_distinct)
    with bad show False by auto
  qed
  then show "ToneRow_init row = Inl InvalidRow"
    by (simp add: ToneRow_init_def)
qed

theorem construct_succeeds_iff_valid_witness:
  "length [0, 1, 2, 3 :: int] \<noteq> 12 \<and> ToneRow_init [0, 1, 2, 3] = Inl InvalidRow \<and>
   \<not> distinct [0, 1, 2, 3, 4, 5, 6, 7, 8, 9, 10, 10 :: int] \<and>
   ToneRow_init [0, 1, 2, 3, 4, 5, 6, 7, 8, 9, 10, 10] = Inl InvalidRow \<and>
   (12::int) \<in> set [0, 1, 2, 3, 4, 5, 6, 7, 8, 9, 10, 12] \<and>
   ToneRow_init [0, 1, 2, 3, 4, 5, 6, 7, 8, 9, 10, 12] = Inl InvalidRow"
  using construct_succeeds_iff_valid [of "[0, 1, 2, 3]"]
    construct_succeeds_iff_valid [of "[0, 1, 2, 3, 4, 5, 6, 7, 8, 9, 10, 10]"]
    construct_succeeds_iff_valid [of "[0, 1, 2, 3, 4, 5, 6, 7, 8, 9, 10, 12]"]
  by simp

section \<open>The matrix\<close>

lemma foldl_update_upt_length:
  "length (foldl (\<lambda>m i. m[i := f i]) m0 is) = length m0"
  by (induction "is" arbitrary: m0) simp_all

lemma foldl_update_upt_nth:
  "b \<le> length m0 \<Longrightarrow> k < length m0 \<Longrightarrow>
   foldl (\<lambda>m i. m[i := f i]) m0 [a..<b] ! k = (if a \<le> k \<and> k < b then f k else m0 ! k)"
proof (induction b)
  case 0
  then show ?case by simp
next
  case (Suc b)
  show ?case
  proof (cases "a \<le> b")
    case True
    then have "[a..<Suc b] = [a..<b] @ [b]" by simp
    with Suc show ?thesis
      by (auto simp: foldl_update_upt_length nth_list_update)
  next
    case False
    then show ?thesis by auto
  qed
qed

lemma twelvetone_matrix_length:
  "twelvetone_matrix R = Inr m \<Longrightarrow> length m = 12"
  by (auto simp: twelvetone_matrix_def Let_def foldl_update_upt_length split: if_splits)

lemma twelvetone_matrix_row0:
  "twelvetone_matrix R = Inr m \<Longrightarrow> m ! 0 = R"
  by (auto simp: twelvetone_matrix_def Let_def foldl_update_upt_length foldl_update_upt_nth split: if_splits)

lemma twelvetone_matrix_row:
  "twelvetone_matrix R = Inr m \<Longrightarrow> 1 \<le> i \<Longrightarrow> i < 12 \<Longrightarrow>
   m ! i = map (\<lambda>x. (x + ((- (R ! i)) mod 12 - (- (R ! 0)) mod 12) mod 12) mod 12) R"
  by (auto simp: twelvetone_matrix_def Let_def foldl_update_upt_length foldl_update_upt_nth split: if_splits)

lemma shift_image: "(\<lambda>x::int. (x + t) mod 12) ` {0..11} = {0..11}"
proof (intro equalityI subsetI)
  fix y :: int assume "y \<in> (\<lambda>x. (x + t) mod 12) ` {0..11}"
  then show "y \<in> {0..11}" by auto
next
  fix y :: int assume y: "y \<in> {0..11}"
  have a: "(y - t) mod 12 \<in> {0..11}" by simp
  have b: "y = ((y - t) mod 12 + t) mod 12" using y by (simp add: mod_add_left_eq)
  show "y \<in> (\<lambda>x. (x + t) mod 12) ` {0..11}"
    by (rule image_eqI [where x = "(y - t) mod 12"]) (rule b, rule a)
qed

lemma reflect_image: "(\<lambda>x::int. (c - x) mod 12) ` {0..11} = {0..11}"
proof (intro equalityI subsetI)
  fix y :: int assume "y \<in> (\<lambda>x. (c - x) mod 12) ` {0..11}"
  then show "y \<in> {0..11}" by auto
next
  fix y :: int assume y: "y \<in> {0..11}"
  have a: "(c - y) mod 12 \<in> {0..11}" by simp
  have b: "y = (c - (c - y) mod 12) mod 12" using y by (simp add: mod_diff_right_eq)
  show "y \<in> (\<lambda>x. (c - x) mod 12) ` {0..11}"
    by (rule image_eqI [where x = "(c - y) mod 12"]) (rule b, rule a)
qed

lemma valid_nth_range:
  "is_valid_tonerow R \<Longrightarrow> j < 12 \<Longrightarrow> 0 \<le> R ! j \<and> R ! j \<le> 11"
proof -
  assume v: "is_valid_tonerow R" and j: "j < 12"
  from v have len: "length R = 12" and s: "set R = {0..11}"
    by (simp_all add: is_valid_tonerow_iff)
  from j len have "R ! j \<in> set R" by (intro nth_mem) simp
  with s show ?thesis by simp
qed

lemma twelvetone_matrix_entry:
  assumes m: "twelvetone_matrix R = Inr m" and v: "is_valid_tonerow R"
    and i: "i < 12" and j: "j < 12"
  shows "m ! i ! j = (R ! j + R ! 0 - R ! i) mod 12"
proof (cases "i = 0")
  case True
  have "0 \<le> R ! j \<and> R ! j \<le> 11" using v j by (rule valid_nth_range)
  then show ?thesis using True m by (simp add: twelvetone_matrix_row0)
next
  case False
  then have "1 \<le> i" by simp
  from twelvetone_matrix_row [OF m this i]
  have "m ! i ! j = (R ! j + ((- (R ! i)) mod 12 - (- (R ! 0)) mod 12) mod 12) mod 12"
    using v j by (simp add: is_valid_tonerow_iff)
  also have "\<dots> = (R ! j + R ! 0 - R ! i) mod 12"
    by (simp add: mod_simps algebra_simps)
  finally show ?thesis .
qed

lemma twelvetone_matrix_rows_shift:
  assumes m: "twelvetone_matrix R = Inr m" and v: "is_valid_tonerow R" and i: "i < 12"
  shows "m ! i = map (\<lambda>x. (x + (R ! 0 - R ! i)) mod 12) R"
proof (rule nth_equalityI)
  show "length (m ! i) = length (map (\<lambda>x. (x + (R ! 0 - R ! i)) mod 12) R)"
  proof (cases "i = 0")
    case True
    then show ?thesis using m by (simp add: twelvetone_matrix_row0)
  next
    case False
    then have "1 \<le> i" by simp
    from twelvetone_matrix_row [OF m this i] show ?thesis by simp
  qed
next
  fix j assume "j < length (m ! i)"
  moreover have "length (m ! i) = 12"
  proof (cases "i = 0")
    case True
    then show ?thesis using m v by (simp add: twelvetone_matrix_row0 is_valid_tonerow_iff)
  next
    case False
    then have "1 \<le> i" by simp
    from twelvetone_matrix_row [OF m this i] show ?thesis
      using v by (simp add: is_valid_tonerow_iff)
  qed
  ultimately have j: "j < 12" by simp
  have "m ! i ! j = (R ! j + R ! 0 - R ! i) mod 12"
    using m v i j by (rule twelvetone_matrix_entry)
  then show "m ! i ! j = map (\<lambda>x. (x + (R ! 0 - R ! i)) mod 12) R ! j"
    using v j by (simp add: is_valid_tonerow_iff algebra_simps)
qed

lemma twelvetone_matrix_column_reflect:
  assumes m: "twelvetone_matrix R = Inr m" and v: "is_valid_tonerow R" and j: "j < 12"
  shows "column m j = map (\<lambda>x. (R ! j + R ! 0 - x) mod 12) R"
proof (rule nth_equalityI)
  show "length (column m j) = length (map (\<lambda>x. (R ! j + R ! 0 - x) mod 12) R)"
    using m v by (simp add: column_def twelvetone_matrix_length is_valid_tonerow_iff)
next
  fix i assume "i < length (column m j)"
  then have i: "i < 12" using m by (simp add: column_def twelvetone_matrix_length)
  have "m ! i ! j = (R ! j + R ! 0 - R ! i) mod 12"
    using m v i j by (rule twelvetone_matrix_entry)
  then show "column m j ! i = map (\<lambda>x. (R ! j + R ! 0 - x) mod 12) R ! i"
    using m v i by (simp add: column_def twelvetone_matrix_length is_valid_tonerow_iff)
qed

lemma valid_shift:
  "is_valid_tonerow R \<Longrightarrow> is_valid_tonerow (map (\<lambda>x. (x + t) mod 12) R)"
  by (simp add: is_valid_tonerow_iff shift_image)

lemma valid_reflect:
  "is_valid_tonerow R \<Longrightarrow> is_valid_tonerow (map (\<lambda>x. (c - x) mod 12) R)"
  by (simp add: is_valid_tonerow_iff reflect_image)

text \<open>
  Claim C3. For a valid row \<open>R\<close> the matrix has twelve rows, row 0 is \<open>R\<close> itself and row
  \<open>i\<close>, for \<open>i\<close> from 1 to 11, is \<open>R\<close> transposed by the interval
  \<open>(inversion[i] - inversion[0]) mod 12\<close> with \<open>inversion[i] = (- R[i]) mod 12\<close>; entry
  \<open>j\<close> of that row is \<open>(R[j] + ((- R[i]) mod 12 - (- R[0]) mod 12)) mod 12\<close>.
\<close>

theorem matrix_rows_are_transpositions:
  assumes "is_valid_tonerow R"
  shows "\<exists>m. twelvetone_matrix R = Inr m \<and> length m = 12 \<and> m ! 0 = R \<and>
           (\<forall>i \<in> {1..11}.
              m ! i = map (\<lambda>x. (x + ((- (R ! i)) mod 12 - (- (R ! 0)) mod 12) mod 12) mod 12) R \<and>
              (\<forall>j < 12. m ! i ! j = (R ! j + ((- (R ! i)) mod 12 - (- (R ! 0)) mod 12)) mod 12))"
proof -
  from assms have len: "length R = 12" by (simp add: is_valid_tonerow_iff)
  then obtain m where m: "twelvetone_matrix R = Inr m"
    using twelvetone_matrix_total by blast
  have rows: "m ! i = map (\<lambda>x. (x + ((- (R ! i)) mod 12 - (- (R ! 0)) mod 12) mod 12) mod 12) R"
    if "i \<in> {1..11}" for i
    using that twelvetone_matrix_row [OF m, of i] by simp
  have entries: "m ! i ! j = (R ! j + ((- (R ! i)) mod 12 - (- (R ! 0)) mod 12)) mod 12"
    if "i \<in> {1..11}" and "j < 12" for i j
  proof -
    have "m ! i ! j = (R ! j + ((- (R ! i)) mod 12 - (- (R ! 0)) mod 12) mod 12) mod 12"
      using rows [OF that(1)] that(2) len by simp
    then show ?thesis by (simp add: mod_add_right_eq)
  qed
  show ?thesis
    using m rows entries twelvetone_matrix_length [OF m] twelvetone_matrix_row0 [OF m]
    by blast
qed

theorem matrix_rows_are_transpositions_witness:
  "is_valid_tonerow [0, 11, 3, 4, 8, 7, 9, 5, 6, 1, 2, 10] \<and>
   (\<exists>m. twelvetone_matrix [0, 11, 3, 4, 8, 7, 9, 5, 6, 1, 2, 10] = Inr m \<and>
        m ! 0 = [0, 11, 3, 4, 8, 7, 9, 5, 6, 1, 2, 10] \<and>
        m ! 1 = [1, 0, 4, 5, 9, 8, 10, 6, 7, 2, 3, 11] \<and>
        m ! 11 = [2, 1, 5, 6, 10, 9, 11, 7, 8, 3, 4, 0] \<and>
        m ! 11 ! 11 = 0)"
proof -
  have v: "is_valid_tonerow [0, 11, 3, 4, 8, 7, 9, 5, 6, 1, 2, 10]" by code_simp
  from matrix_rows_are_transpositions [OF v] show ?thesis
    using v by (auto simp: eval_nat_numeral)
qed

text \<open>
  Claim C5. Every row and every column of the matrix of a valid row is a valid row, that
  is, a permutation of \<open>0..11\<close>.
\<close>

theorem matrix_rows_columns_valid:
  assumes "is_valid_tonerow R" and "twelvetone_matrix R = Inr m"
  shows "(\<forall>i < 12. is_valid_tonerow (m ! i)) \<and> (\<forall>j < 12. is_valid_tonerow (column m j))"
proof (intro conjI allI impI)
  fix i :: nat assume "i < 12"
  with assms show "is_valid_tonerow (m ! i)"
    by (simp add: twelvetone_matrix_rows_shift valid_shift)
next
  fix j :: nat assume "j < 12"
  with assms show "is_valid_tonerow (column m j)"
    by (simp add: twelvetone_matrix_column_reflect valid_reflect)
qed

theorem matrix_rows_columns_valid_witness:
  "is_valid_tonerow [0, 11, 3, 4, 8, 7, 9, 5, 6, 1, 2, 10] \<and>
   twelvetone_matrix [0, 11, 3, 4, 8, 7, 9, 5, 6, 1, 2, 10] = Inr
     [[ 0, 11,  3,  4,  8,  7,  9,  5,  6,  1,  2, 10],
      [ 1,  0,  4,  5,  9,  8, 10,  6,  7,  2,  3, 11],
      [ 9,  8,  0,  1,  5,  4,  6,  2,  3, 10, 11,  7],
      [ 8,  7, 11,  0,  4,  3,  5,  1,  2,  9, 10,  6],
      [ 4,  3,  7,  8,  0, 11,  1,  9, 10,  5,  6,  2],
      [ 5,  4,  8,  9,  1,  0,  2, 10, 11,  6,  7,  3],
      [ 3,  2,  6,  7, 11, 10,  0,  8,  9,  4,  5,  1],
      [ 7,  6, 10, 11,  3,  2,  4,  0,  1,  8,  9,  5],
      [ 6,  5,  9, 10,  2,  1,  3, 11,  0,  7,  8,  4],
      [11, 10,  2,  3,  7,  6,  8,  4,  5,  0,  1,  9],
      [10,  9,  1,  2,  6,  5,  7,  3,  4, 11,  0,  8],
      [ 2,  1,  5,  6, 10,  9, 11,  7,  8,  3,  4,  0]] \<and>
   is_valid_tonerow [8, 7, 11, 0, 4, 3, 5, 1, 2, 9, 10, 6] \<and>
   is_valid_tonerow [7, 8, 4, 3, 11, 0, 10, 2, 1, 6, 5, 9]"
proof -
  let ?M = "[[ 0, 11,  3,  4,  8,  7,  9,  5,  6,  1,  2, 10],
      [ 1,  0,  4,  5,  9,  8, 10,  6,  7,  2,  3, 11],
      [ 9,  8,  0,  1,  5,  4,  6,  2,  3, 10, 11,  7],
      [ 8,  7, 11,  0,  4,  3,  5,  1,  2,  9, 10,  6],
      [ 4,  3,  7,  8,  0, 11,  1,  9, 10,  5,  6,  2],
      [ 5,  4,  8,  9,  1,  0,  2, 10, 11,  6,  7,  3],
      [ 3,  2,  6,  7, 11, 10,  0,  8,  9,  4,  5,  1],
      [ 7,  6, 10, 11,  3,  2,  4,  0,  1,  8,  9,  5],
      [ 6,  5,  9, 10,  2,  1,  3, 11,  0,  7,  8,  4],
      [11, 10,  2,  3,  7,  6,  8,  4,  5,  0,  1,  9],
      [10,  9,  1,  2,  6,  5,  7,  3,  4, 11,  0,  8],
      [ 2,  1,  5,  6, 10,  9, 11,  7,  8,  3,  4,  0 :: int]]"
  have v: "is_valid_tonerow [0, 11, 3, 4, 8, 7, 9, 5, 6, 1, 2, 10]" by code_simp
  have m: "twelvetone_matrix [0, 11, 3, 4, 8, 7, 9, 5, 6, 1, 2, 10] = Inr ?M" by code_simp
  from matrix_rows_columns_valid [OF v m]
  have r: "\<forall>i < 12. is_valid_tonerow (?M ! i)"
    and c: "\<forall>j < 12. is_valid_tonerow (column ?M j)" by simp_all
  have "is_valid_tonerow (?M ! 3)" using r [rule_format, of 3] by simp
  moreover have "is_valid_tonerow (column ?M 5)" using c [rule_format, of 5] by simp
  moreover have "?M ! 3 = [8, 7, 11, 0, 4, 3, 5, 1, 2, 9, 10, 6]" by (simp add: eval_nat_numeral)
  moreover have "column ?M 5 = [7, 8, 4, 3, 11, 0, 10, 2, 1, 6, 5, 9]"
    by (simp add: column_def eval_nat_numeral)
  ultimately show ?thesis using v m by simp
qed

text \<open>
  Claim C4, as stated, at the row \<open>[1, 0, 2, ..., 11]\<close>: the top left entry of the matrix is
  the first note 1 of the row, while \<open>(- R[0]) mod 12\<close> is 11.
\<close>

theorem column0_counterexample:
  "is_valid_tonerow [1, 0, 2, 3, 4, 5, 6, 7, 8, 9, 10, 11] \<and>
   projr (twelvetone_matrix [1, 0, 2, 3, 4, 5, 6, 7, 8, 9, 10, 11]) ! 0 ! 0 = 1 \<and>
   (- ([1, 0, 2, 3, 4, 5, 6, 7, 8, 9, 10, 11] ! 0)) mod 12 = (11 :: int)"
  by code_simp

text \<open>
  Claim C4, amended. For a valid row \<open>R\<close>, column 0 of the matrix is the inversion of \<open>R\<close>
  about its first note: entry \<open>i\<close> is \<open>(2 * R[0] - R[i]) mod 12\<close>, for every \<open>i\<close> from 0 to 11.
  The column equals \<open>(- R[i]) mod 12\<close> at every \<open>i\<close> exactly when \<open>R\<close> starts on 0 or on 6.
\<close>

theorem column0_is_inversion_about_first_note:
  assumes "is_valid_tonerow R"
  shows "\<exists>m. twelvetone_matrix R = Inr m \<and>
           (\<forall>i < 12. m ! i ! 0 = (2 * R ! 0 - R ! i) mod 12) \<and>
           ((\<forall>i < 12. m ! i ! 0 = (- (R ! i)) mod 12) \<longleftrightarrow> R ! 0 = 0 \<or> R ! 0 = 6)"
proof -
  from assms have "length R = 12" by (simp add: is_valid_tonerow_iff)
  then obtain m where m: "twelvetone_matrix R = Inr m"
    using twelvetone_matrix_total by blast
  have e: "m ! i ! 0 = (2 * R ! 0 - R ! i) mod 12" if "i < 12" for i
    using twelvetone_matrix_entry [OF m assms that, of 0] by (simp add: algebra_simps)
  have r0: "0 \<le> R ! 0 \<and> R ! 0 \<le> 11" using assms by (simp add: valid_nth_range)
  have "R ! 0 = 0 \<or> R ! 0 = 6" if "\<forall>i < 12. m ! i ! 0 = (- (R ! i)) mod 12"
  proof -
    from that have "m ! 0 ! 0 = (- (R ! 0)) mod 12" by simp
    with e [of 0] have "(2 * R ! 0 - R ! 0) mod 12 = (- (R ! 0)) mod 12" by simp
    with r0 have "R ! 0 = (- (R ! 0)) mod 12" by simp
    moreover have "(R ! 0 + (- (R ! 0)) mod 12) mod 12 = (R ! 0 + - (R ! 0)) mod 12"
      by (rule mod_add_right_eq)
    ultimately have "(R ! 0 + R ! 0) mod 12 = 0" by simp
    with r0 show ?thesis by arith
  qed
  moreover have "\<forall>i < 12. m ! i ! 0 = (- (R ! i)) mod 12" if "R ! 0 = 0 \<or> R ! 0 = 6"
  proof (intro allI impI)
    fix i :: nat assume "i < 12"
    then have "m ! i ! 0 = (2 * R ! 0 - R ! i) mod 12" by (rule e)
    also have "\<dots> = (- (R ! i)) mod 12" using that by (auto simp: mod_simps)
    finally show "m ! i ! 0 = (- (R ! i)) mod 12" .
  qed
  ultimately show ?thesis using m e by blast
qed

theorem column0_is_inversion_about_first_note_witness:
  "is_valid_tonerow [1, 0, 2, 3, 4, 5, 6, 7, 8, 9, 10, 11] \<and>
   (\<exists>m. twelvetone_matrix [1, 0, 2, 3, 4, 5, 6, 7, 8, 9, 10, 11] = Inr m \<and>
        m ! 0 ! 0 = 1 \<and> m ! 1 ! 0 = 2 \<and> m ! 2 ! 0 = 0 \<and> m ! 11 ! 0 = 3 \<and>
        \<not> (\<forall>i < 12. m ! i ! 0 = (- ([1, 0, 2, 3, 4, 5, 6, 7, 8, 9, 10, 11] ! i)) mod 12))"
proof -
  have v: "is_valid_tonerow [1, 0, 2, 3, 4, 5, 6, 7, 8, 9, 10, 11]" by code_simp
  from column0_is_inversion_about_first_note [OF v] obtain m where
    m: "twelvetone_matrix [1, 0, 2, 3, 4, 5, 6, 7, 8, 9, 10, 11] = Inr m" and
    e: "\<forall>i < 12. m ! i ! 0 = (2 * [1, 0, 2, 3, 4, 5, 6, 7, 8, 9, 10, 11] ! 0
                               - [1, 0, 2, 3, 4, 5, 6, 7, 8, 9, 10, 11] ! i) mod 12" and
    n: "(\<forall>i < 12. m ! i ! 0 = (- ([1, 0, 2, 3, 4, 5, 6, 7, 8, 9, 10, 11] ! i)) mod 12)
          \<longleftrightarrow> [1, 0, 2, 3, 4, 5, 6, 7, 8, 9, 10, 11 :: int] ! 0 = 0
             \<or> [1, 0, 2, 3, 4, 5, 6, 7, 8, 9, 10, 11 :: int] ! 0 = 6"
    by blast
  from e have "m ! 0 ! 0 = 1" and "m ! 1 ! 0 = 2" and "m ! 2 ! 0 = 0" and "m ! 11 ! 0 = 3"
    by (simp_all add: eval_nat_numeral)
  moreover from n have
    "\<not> (\<forall>i < 12. m ! i ! 0 = (- ([1, 0, 2, 3, 4, 5, 6, 7, 8, 9, 10, 11] ! i)) mod 12)"
    by simp
  ultimately show ?thesis using v m by blast
qed

section \<open>Transposition\<close>

lemma error_kinds_distinct: "InvalidRow \<noteq> RangeError"
  by (simp add: InvalidRow_def RangeError_def)

lemma transpose_row_ok:
  assumes "is_valid_tonerow (s a)" and "- 11 \<le> n" and "n \<le> 11"
  shows "transpose_row s a n = Inr (s(a := map (\<lambda>x. (x + (n + 12) mod 12) mod 12) (s a)), a)"
  using assms by (simp add: transpose_row_def Let_def o_def)

text \<open>
  Claim C8. On a valid row, \<open>transpose_row\<close> raises the range error exactly when the interval
  is outside \<open>-11..11\<close>; for an interval inside, it returns a row of twelve elements whose
  element \<open>j\<close> is \<open>(R[j] + ((interval mod 12) + 12) mod 12) mod 12\<close>, with \<open>R\<close> the row as
  it was before the call. On an invalid row it raises the invalid-row error.
\<close>

theorem transpose_row_contract:
  "(is_valid_tonerow (s a) \<longrightarrow>
      (transpose_row s a n = Inl RangeError \<longleftrightarrow> n < - 11 \<or> 11 < n) \<and>
      (- 11 \<le> n \<and> n \<le> 11 \<longrightarrow>
         (\<exists>s' r. transpose_row s a n = Inr (s', r) \<and> length (s' r) = 12 \<and>
            (\<forall>j < 12. s' r ! j = (s a ! j + ((n mod 12) + 12) mod 12) mod 12)))) \<and>
   (\<not> is_valid_tonerow (s a) \<longrightarrow> transpose_row s a n = Inl InvalidRow)"
proof (intro conjI impI)
  assume v: "is_valid_tonerow (s a)"
  show "transpose_row s a n = Inl RangeError \<longleftrightarrow> n < - 11 \<or> 11 < n"
    using v by (auto simp: transpose_row_def Let_def)
next
  assume v: "is_valid_tonerow (s a)" and n: "- 11 \<le> n \<and> n \<le> 11"
  let ?r = "map (\<lambda>x. (x + (n + 12) mod 12) mod 12) (s a)"
  have len: "length (s a) = 12" using v by (simp add: is_valid_tonerow_iff)
  have "transpose_row s a n = Inr (s(a := ?r), a)"
    using v n by (simp add: transpose_row_ok)
  moreover have "length ((s(a := ?r)) a) = 12" using len by simp
  moreover have "\<forall>j < 12. (s(a := ?r)) a ! j = (s a ! j + ((n mod 12) + 12) mod 12) mod 12"
    using len by (simp add: mod_simps)
  ultimately show "\<exists>s' r. transpose_row s a n = Inr (s', r) \<and> length (s' r) = 12 \<and>
            (\<forall>j < 12. s' r ! j = (s a ! j + ((n mod 12) + 12) mod 12) mod 12)"
    by blast
next
  assume "\<not> is_valid_tonerow (s a)"
  then show "transpose_row s a n = Inl InvalidRow"
    by (simp add: transpose_row_def)
qed

theorem transpose_row_contract_witness:
  "is_valid_tonerow (identity_store 0) \<and>
   transpose_row identity_store 0 12 = Inl RangeError \<and>
   transpose_row identity_store 0 (- 12) = Inl RangeError \<and>
   transpose_row identity_store 0 11 \<noteq> Inl RangeError \<and>
   transpose_row identity_store 0 0 \<noteq> Inl RangeError \<and>
   transpose_row identity_store 0 (- 11) \<noteq> Inl RangeError \<and>
   \<not> is_valid_tonerow (identity_store 1) \<and>
   transpose_row identity_store 1 3 = Inl InvalidRow"
proof -
  have v: "is_valid_tonerow (identity_store 0)"
    unfolding identity_store_def by code_simp
  have nv: "\<not> is_valid_tonerow (identity_store 1)"
    by (simp add: identity_store_def is_valid_tonerow_iff)
  show ?thesis
    using v nv transpose_row_contract [of identity_store 0 12]
      transpose_row_contract [of identity_store 0 "- 12"]
      transpose_row_contract [of identity_store 0 11]
      transpose_row_contract [of identity_store 0 0]
      transpose_row_contract [of identity_store 0 "- 11"]
      transpose_row_contract [of identity_store 1 3]
    by simp
qed

text \<open>
  Claim C9 does not hold of the code. The result of \<open>transpose_row\<close> is the array it was
  given: the returned address is the input's, and after the call the input holds the
  transposed values. Only the interval 0 leaves its values as they were.
\<close>

lemma transpose_row_aliases_input:
  assumes "is_valid_tonerow (s a)" and "- 11 \<le> n" and "n \<le> 11"
    and "transpose_row s a n = Inr (s', r)"
  shows "r = a \<and> s' a = map (\<lambda>x. (x + n) mod 12) (s a) \<and> (s' a = s a \<longleftrightarrow> n = 0)"
proof -
  have r: "r = a" and s': "s' = s(a := map (\<lambda>x. (x + (n + 12) mod 12) mod 12) (s a))"
    using assms by (auto simp: transpose_row_ok)
  have m: "s' a = map (\<lambda>x. (x + n) mod 12) (s a)"
    by (simp add: s' mod_simps)
  have len: "length (s a) = 12" using assms(1) by (simp add: is_valid_tonerow_iff)
  have "n = 0" if e: "s' a = s a"
  proof -
    have "s' a ! 0 = s a ! 0" using e by simp
    then have "(s a ! 0 + n) mod 12 = s a ! 0" using m len by simp
    moreover have "0 \<le> s a ! 0 \<and> s a ! 0 \<le> 11"
      using assms(1) by (simp add: valid_nth_range)
    ultimately show ?thesis using assms(2,3) by arith
  qed
  moreover have "s' a = s a" if "n = 0"
  proof -
    have "\<forall>x \<in> set (s a). x mod 12 = x"
      using assms(1) by (simp add: is_valid_tonerow_iff)
    then have "map (\<lambda>x. x mod 12) (s a) = s a" by (simp add: map_idI)
    with that m show ?thesis by simp
  qed
  ultimately show ?thesis using r m by blast
qed

text \<open>
  Claim C9 at the identity row and the interval 1: after the call the input array holds
  \<open>[1, 2, ..., 11, 0]\<close>.
\<close>

theorem transpose_row_mutates_input:
  "identity_store 0 = [0, 1, 2, 3, 4, 5, 6, 7, 8, 9, 10, 11] \<and>
   transpose_row identity_store 0 1 =
     Inr (identity_store (0 := [1, 2, 3, 4, 5, 6, 7, 8, 9, 10, 11, 0]), 0)"
proof -
  have v: "is_valid_tonerow (identity_store 0)"
    unfolding identity_store_def by code_simp
  then have "transpose_row identity_store 0 1 =
     Inr (identity_store (0 := map (\<lambda>x. (x + (1 + 12) mod 12) mod 12) (identity_store 0)), 0)"
    by (simp add: transpose_row_ok)
  then show ?thesis by (simp add: identity_store_def)
qed

section \<open>Detection\<close>

lemma foldl_append_filter:
  "foldl (\<lambda>acc x. if p x then acc @ [g x] else acc) a xs = a @ map g (filter p xs)"
  by (induction xs arbitrary: a) simp_all

lemma Partition_6: "Partition row 6 = [set (take 6 row), set (slice 6 12 row)]"
  by (simp add: Partition_def slice_def upt_rec)

lemma Partition_4:
  "Partition row 4 = [set (slice 0 4 row), set (slice 4 8 row), set (slice 8 12 row)]"
  by (simp add: Partition_def slice_def upt_rec)

lemma Partition_3:
  "Partition row 3 =
     [set (slice 0 3 row), set (slice 3 6 row), set (slice 6 9 row), set (slice 9 12 row)]"
  by (simp add: Partition_def slice_def upt_rec)

lemma ToneRow_init_matrix:
  assumes "ToneRow_init R = Inr tr"
  shows "is_valid_tonerow R" and "twelvetone_matrix R = Inr (matrix tr)"
  using assms by (auto simp: ToneRow_init_def split: if_splits sum.splits)

lemma ToneRow_matrix_length:
  assumes "ToneRow_init R = Inr tr"
  shows "length (matrix tr) = 12"
  using ToneRow_init_matrix(2) [OF assms] by (rule twelvetone_matrix_length)

lemma ToneRow_row_length:
  assumes "ToneRow_init R = Inr tr" and "row \<in> set (matrix tr)"
  shows "length row = 12"
proof -
  from assms(2) obtain i where i: "i < length (matrix tr)" and r: "row = matrix tr ! i"
    by (auto simp: in_set_conv_nth)
  from i have "i < 12" by (simp add: ToneRow_matrix_length [OF assms(1)])
  with matrix_rows_columns_valid [OF ToneRow_init_matrix [OF assms(1)]]
  have "is_valid_tonerow (matrix tr ! i)" by simp
  with r show ?thesis by (simp add: is_valid_tonerow_iff)
qed

lemma rev_first_hexachord:
  "length row = 12 \<Longrightarrow> set (take 6 (rev row)) = set (drop 6 row)"
  by (simp add: take_rev)

lemma rev_first_note:
  assumes "length row = 12"
  shows "rev row ! 0 = last row"
proof -
  from assms have "row \<noteq> []" by auto
  then have "last row = row ! (length row - 1)" by (rule last_conv_nth)
  with assms show ?thesis by (simp add: rev_nth)
qed

lemma hexachords_prime:
  "hexachords_prime_combinatorials tr = Detect tr 6 KP"
proof -
  have "hexachords_prime_combinatorials tr =
      foldl (\<lambda>acc x. if (set (take 6 x) \<inter> set (take 6 (matrix tr ! 0)) = {} \<and>
                          \<not> level x (prime_row tr) = 0)
                      then acc @ [''P'' @ str_int (level x (prime_row tr))] else acc)
        [] (matrix tr)"
    unfolding hexachords_prime_combinatorials_def Let_def level_def
    by (rule foldl_cong) auto
  then show ?thesis
    by (simp add: foldl_append_filter Detect_def combinatorial_def Partition_6
        excludes_level_0_def prime_row_def)
qed

lemma hexachords_retrograde:
  assumes "ToneRow_init R = Inr tr"
  shows "hexachords_retrograde_combinatorials tr = Detect tr 6 KR"
proof -
  have "hexachords_retrograde_combinatorials tr =
      foldl (\<lambda>acc x. if (set (take 6 (rev x)) \<inter> set (take 6 (matrix tr ! 0)) = {} \<and>
                          \<not> level (rev x) (retrograde tr) = 0)
                      then acc @ [''R'' @ str_int (level (rev x) (retrograde tr))] else acc)
        [] (matrix tr)"
    unfolding hexachords_retrograde_combinatorials_def Let_def level_def
    by (rule foldl_cong)
      (auto simp: rev_first_hexachord rev_first_note ToneRow_row_length [OF assms])
  then show ?thesis
    by (simp add: foldl_append_filter Detect_def combinatorial_def Partition_6
        excludes_level_0_def prime_row_def filter_map o_def)
qed

lemma hexachords_inversion:
  assumes "ToneRow_init R = Inr tr"
  shows "hexachords_inversion_combinatorials tr = Detect tr 6 KI"
proof -
  have "hexachords_inversion_combinatorials tr =
      foldl (\<lambda>acc j. if (set (take 6 (column (matrix tr) j)) \<inter> set (take 6 (matrix tr ! 0)) = {} \<and>
                          \<not> level (column (matrix tr) j) (inversion tr) = 0)
                      then acc @ [''I'' @ str_int (level (column (matrix tr) j) (inversion tr))]
                      else acc)
        [] [0..<12]"
    unfolding hexachords_inversion_combinatorials_def Let_def level_def
      ToneRow_matrix_length [OF assms]
    by (rule foldl_cong) auto
  then show ?thesis
    by (simp add: foldl_append_filter Detect_def combinatorial_def Partition_6
        excludes_level_0_def prime_row_def filter_map o_def)
qed

lemma hexachords_retrograde_inversion:
  assumes "ToneRow_init R = Inr tr"
  shows "hexachords_retrograde_inversion_combinatorials tr = Detect tr 6 KRI"
proof -
  have "hexachords_retrograde_inversion_combinatorials tr =
      foldl (\<lambda>acc j. if (set (take 6 (rev (column (matrix tr) j))) \<inter> set (take 6 (matrix tr ! 0)) = {} \<and>
                          \<not> level (rev (column (matrix tr) j)) (retrograde_inversion tr) = 0)
                      then acc @ [''RI'' @ str_int (level (rev (column (matrix tr) j)) (retrograde_inversion tr))]
                      else acc)
        [] [0..<12]"
    unfolding hexachords_retrograde_inversion_combinatorials_def Let_def level_def
      ToneRow_matrix_length [OF assms]
    by (rule foldl_cong) auto
  then show ?thesis
    by (simp add: foldl_append_filter Detect_def combinatorial_def Partition_6
        excludes_level_0_def prime_row_def filter_map o_def)
qed

text \<open>
  Claim C1. For the \<open>ToneRow\<close> of a valid row, each of the four hexachord detectors returns,
  in the order of the candidate forms, the label of exactly those candidates of its kind
  whose first six elements are disjoint from the first six elements of P0 and whose level
  is not 0; the level is the first note of the candidate minus the first note of the
  reference form of the kind, plus 12, modulo 12.
\<close>

theorem hexachords_detect:
  assumes "ToneRow_init R = Inr tr"
  shows "hexachords_prime_combinatorials tr = Detect tr 6 KP \<and>
         hexachords_retrograde_combinatorials tr = Detect tr 6 KR \<and>
         hexachords_inversion_combinatorials tr = Detect tr 6 KI \<and>
         hexachords_retrograde_inversion_combinatorials tr = Detect tr 6 KRI"
  using hexachords_prime hexachords_retrograde [OF assms] hexachords_inversion [OF assms]
    hexachords_retrograde_inversion [OF assms]
  by simp

theorem hexachords_detect_witness:
  "ToneRow_init [0, 1, 2, 3, 4, 5, 6, 7, 8, 9, 10, 11] = Inr identity_tonerow \<and>
   Detect identity_tonerow 6 KP = [''P6''] \<and>
   Detect identity_tonerow 6 KR = [] \<and>
   Detect identity_tonerow 6 KI = [''I11''] \<and>
   Detect identity_tonerow 6 KRI = [''RI5'']"
proof -
  have i: "ToneRow_init [0, 1, 2, 3, 4, 5, 6, 7, 8, 9, 10, 11] = Inr identity_tonerow"
    unfolding identity_tonerow_def by code_simp
  have "hexachords_prime_combinatorials identity_tonerow = [''P6'']" by code_simp
  moreover have "hexachords_retrograde_combinatorials identity_tonerow = []" by code_simp
  moreover have "hexachords_inversion_combinatorials identity_tonerow = [''I11'']" by code_simp
  moreover have "hexachords_retrograde_inversion_combinatorials identity_tonerow = [''RI5'']"
    by code_simp
  ultimately show ?thesis using i hexachords_detect [OF i] by simp
qed

lemma found_match_iff: "found_match x cs \<longleftrightarrow> x \<in> set cs"
  by (induction cs) auto

lemma find_and_remove_case:
  "(case find_and_remove x cs of None \<Rightarrow> a | Some cs' \<Rightarrow> F cs') =
     (if x \<in> set cs then F (remove1 x cs) else a)"
  by (simp add: find_and_remove_def found_match_iff)

lemma mset_remove1_iff:
  "x \<in> set cs \<Longrightarrow> mset (remove1 x cs) = M \<longleftrightarrow> mset cs = add_mset x M"
  by (metis add_mset_remove_trivial insert_DiffM mset_remove1 set_mset_mset)

lemma mset_add_notin: "x \<notin> set cs \<Longrightarrow> mset cs \<noteq> add_mset x M"
  by (metis set_mset_mset union_single_eq_member)

lemma last_segment_iff: "length r = 1 \<and> x = r ! 0 \<longleftrightarrow> mset r = {#x#}"
proof
  assume "length r = 1 \<and> x = r ! 0"
  then have "r = [x]" by (cases r) auto
  then show "mset r = {#x#}" by simp
next
  assume "mset r = {#x#}"
  then have "r = [x]" by simp
  then show "length r = 1 \<and> x = r ! 0" by simp
qed

lemma greedy3:
  "x1 \<in> set cs \<and> x2 \<in> set (remove1 x1 cs) \<and>
   length (remove1 x2 (remove1 x1 cs)) = 1 \<and> x3 = remove1 x2 (remove1 x1 cs) ! 0
   \<longleftrightarrow> mset cs = mset [x1, x2, x3]"
proof (cases "x1 \<in> set cs")
  case False
  then show ?thesis using mset_add_notin [of x1 cs "{#x2, x3#}"] by simp
next
  case x1: True
  show ?thesis
  proof (cases "x2 \<in> set (remove1 x1 cs)")
    case False
    then have a: "mset (remove1 x1 cs) \<noteq> {#x2, x3#}" by (rule mset_add_notin)
    have b: "mset (remove1 x1 cs) = {#x2, x3#} \<longleftrightarrow> mset cs = {#x1, x2, x3#}"
      using x1 by (rule mset_remove1_iff)
    from a b False show ?thesis by simp
  next
    case x2: True
    have "mset (remove1 x2 (remove1 x1 cs)) = {#x3#} \<longleftrightarrow>
          mset (remove1 x1 cs) = {#x2, x3#}"
      using x2 by (rule mset_remove1_iff)
    also have "\<dots> \<longleftrightarrow> mset cs = {#x1, x2, x3#}"
      using x1 by (rule mset_remove1_iff)
    finally have c: "mset (remove1 x2 (remove1 x1 cs)) = {#x3#} \<longleftrightarrow>
          mset cs = mset [x1, x2, x3]" by simp
    have "length (remove1 x2 (remove1 x1 cs)) = 1 \<and> x3 = remove1 x2 (remove1 x1 cs) ! 0
          \<longleftrightarrow> mset (remove1 x2 (remove1 x1 cs)) = {#x3#}"
      by (rule last_segment_iff)
    with c x1 x2 show ?thesis by blast
  qed
qed

lemma greedy4:
  "x1 \<in> set cs \<and> x2 \<in> set (remove1 x1 cs) \<and> x3 \<in> set (remove1 x2 (remove1 x1 cs)) \<and>
   length (remove1 x3 (remove1 x2 (remove1 x1 cs))) = 1 \<and>
   x4 = remove1 x3 (remove1 x2 (remove1 x1 cs)) ! 0
   \<longleftrightarrow> mset cs = mset [x1, x2, x3, x4]"
proof (cases "x1 \<in> set cs")
  case False
  then show ?thesis using mset_add_notin [of x1 cs "{#x2, x3, x4#}"] by simp
next
  case x1: True
  have "x2 \<in> set (remove1 x1 cs) \<and> x3 \<in> set (remove1 x2 (remove1 x1 cs)) \<and>
        length (remove1 x3 (remove1 x2 (remove1 x1 cs))) = 1 \<and>
        x4 = remove1 x3 (remove1 x2 (remove1 x1 cs)) ! 0
        \<longleftrightarrow> mset (remove1 x1 cs) = mset [x2, x3, x4]"
    by (rule greedy3)
  also have "\<dots> \<longleftrightarrow> mset (remove1 x1 cs) = {#x2, x3, x4#}" by simp
  also have "\<dots> \<longleftrightarrow> mset cs = {#x1, x2, x3, x4#}"
    using x1 by (rule mset_remove1_iff)
  also have "\<dots> \<longleftrightarrow> mset cs = mset [x1, x2, x3, x4]" by simp
  finally show ?thesis using x1 by blast
qed

lemma tetrachords_step:
  "(case find_and_remove x1 cs of
      None \<Rightarrow> a
    | Some cs1 \<Rightarrow>
       (case find_and_remove x2 cs1 of
          None \<Rightarrow> a
        | Some cs2 \<Rightarrow>
           if length cs2 \<noteq> 1 then a else if \<not> (x3 = cs2 ! 0) then a else b))
   = (if mset cs = mset [x1, x2, x3] then b else a)"
  unfolding find_and_remove_case greedy3 [symmetric] by simp

lemma trichords_step:
  "(case find_and_remove x1 cs of
      None \<Rightarrow> a
    | Some cs1 \<Rightarrow>
       (case find_and_remove x2 cs1 of
          None \<Rightarrow> a
        | Some cs2 \<Rightarrow>
           (case find_and_remove x3 cs2 of
              None \<Rightarrow> a
            | Some cs3 \<Rightarrow>
               if length cs3 \<noteq> 1 then a else if \<not> (x4 = cs3 ! 0) then a else b)))
   = (if mset cs = mset [x1, x2, x3, x4] then b else a)"
  unfolding find_and_remove_case greedy4 [symmetric] by simp

lemma tetrachords_prime:
  "tetrachords_prime_combinatorials tr = Detect tr 4 KP"
proof -
  have "tetrachords_prime_combinatorials tr =
      foldl (\<lambda>acc x.
            if (mset (Partition x 4) = mset (Partition (matrix tr ! 0) 4) \<and>
               \<not> level x (prime_row tr) = 0)
            then acc @ [''P'' @ str_int (level x (prime_row tr))] else acc)
        [] (matrix tr)"
    unfolding tetrachords_prime_combinatorials_def Let_def level_def tetrachords_step Partition_4
    by (rule foldl_cong) auto
  then show ?thesis
    by (simp add: foldl_append_filter Detect_def combinatorial_def MatchesAsMultiset_def
        excludes_level_0_def prime_row_def filter_map o_def)
qed

lemma tetrachords_retrograde:
  "tetrachords_retrograde_combinatorials tr = Detect tr 4 KR"
proof -
  have "tetrachords_retrograde_combinatorials tr =
      foldl (\<lambda>acc x.
            if (mset (Partition (rev x) 4) = mset (Partition (matrix tr ! 0) 4) \<and>
               \<not> level (rev x) (retrograde tr) = 0)
            then acc @ [''R'' @ str_int (level (rev x) (retrograde tr))] else acc)
        [] (matrix tr)"
    unfolding tetrachords_retrograde_combinatorials_def Let_def level_def tetrachords_step Partition_4
    by (rule foldl_cong) auto
  then show ?thesis
    by (simp add: foldl_append_filter Detect_def combinatorial_def MatchesAsMultiset_def
        excludes_level_0_def prime_row_def filter_map o_def)
qed

lemma tetrachords_inversion:
  assumes "ToneRow_init R = Inr tr"
  shows "tetrachords_inversion_combinatorials tr = Detect tr 4 KI"
proof -
  have "tetrachords_inversion_combinatorials tr =
      foldl (\<lambda>acc j.
            if mset (Partition (column (matrix tr) j) 4) = mset (Partition (matrix tr ! 0) 4)
            then acc @ [''I'' @ str_int (level (column (matrix tr) j) (inversion tr))] else acc)
        [] [0..<12]"
    unfolding tetrachords_inversion_combinatorials_def Let_def level_def tetrachords_step Partition_4
      ToneRow_matrix_length [OF assms]
    by (rule foldl_cong) auto
  then show ?thesis
    by (simp add: foldl_append_filter Detect_def combinatorial_def MatchesAsMultiset_def
        excludes_level_0_def prime_row_def filter_map o_def)
qed

lemma tetrachords_retrograde_inversion:
  assumes "ToneRow_init R = Inr tr"
  shows "tetrachords_retrograde_inversion_combinatorials tr = Detect tr 4 KRI"
proof -
  have "tetrachords_retrograde_inversion_combinatorials tr =
      foldl (\<lambda>acc j.
            if mset (Partition (rev (column (matrix tr) j)) 4) = mset (Partition (matrix tr ! 0) 4)
            then acc @ [''RI'' @ str_int (level (rev (column (matrix tr) j)) (retrograde_inversion tr))] else acc)
        [] [0..<12]"
    unfolding tetrachords_retrograde_inversion_combinatorials_def Let_def level_def tetrachords_step Partition_4
      ToneRow_matrix_length [OF assms]
    by (rule foldl_cong) auto
  then show ?thesis
    by (simp add: foldl_append_filter Detect_def combinatorial_def MatchesAsMultiset_def
        excludes_level_0_def prime_row_def filter_map o_def)
qed

lemma trichords_prime:
  "trichords_prime_combinatorials tr = Detect tr 3 KP"
proof -
  have "trichords_prime_combinatorials tr =
      foldl (\<lambda>acc x.
            if (mset (Partition x 3) = mset (Partition (matrix tr ! 0) 3) \<and>
               \<not> level x (prime_row tr) = 0)
            then acc @ [''P'' @ str_int (level x (prime_row tr))] else acc)
        [] (matrix tr)"
    unfolding trichords_prime_combinatorials_def Let_def level_def trichords_step Partition_3
    by (rule foldl_cong) auto
  then show ?thesis
    by (simp add: foldl_append_filter Detect_def combinatorial_def MatchesAsMultiset_def
        excludes_level_0_def prime_row_def filter_map o_def)
qed

lemma trichords_retrograde:
  "trichords_retrograde_combinatorials tr = Detect tr 3 KR"
proof -
  have "trichords_retrograde_combinatorials tr =
      foldl (\<lambda>acc x.
            if (mset (Partition (rev x) 3) = mset (Partition (matrix tr ! 0) 3) \<and>
               \<not> level (rev x) (retrograde tr) = 0)
            then acc @ [''R'' @ str_int (level (rev x) (retrograde tr))] else acc)
        [] (matrix tr)"
    unfolding trichords_retrograde_combinatorials_def Let_def level_def trichords_step Partition_3
    by (rule foldl_cong) auto
  then show ?thesis
    by (simp add: foldl_append_filter Detect_def combinatorial_def MatchesAsMultiset_def
        excludes_level_0_def prime_row_def filter_map o_def)
qed

lemma trichords_inversion:
  assumes "ToneRow_init R = Inr tr"
  shows "trichords_inversion_combinatorials tr = Detect tr 3 KI"
proof -
  have "trichords_inversion_combinatorials tr =
      foldl (\<lambda>acc j.
            if mset (Partition (column (matrix tr) j) 3) = mset (Partition (matrix tr ! 0) 3)
            then acc @ [''I'' @ str_int (level (column (matrix tr) j) (inversion tr))] else acc)
        [] [0..<12]"
    unfolding trichords_inversion_combinatorials_def Let_def level_def trichords_step Partition_3
      ToneRow_matrix_length [OF assms]
    by (rule foldl_cong) auto
  then show ?thesis
    by (simp add: foldl_append_filter Detect_def combinatorial_def MatchesAsMultiset_def
        excludes_level_0_def prime_row_def filter_map o_def)
qed

lemma trichords_retrograde_inversion:
  assumes "ToneRow_init R = Inr tr"
  shows "trichords_retrograde_inversion_combinatorials tr = Detect tr 3 KRI"
proof -
  have "trichords_retrograde_inversion_combinatorials tr =
      foldl (\<lambda>acc j.
            if mset (Partition (rev (column (matrix tr) j)) 3) = mset (Partition (matrix tr ! 0) 3)
            then acc @ [''RI'' @ str_int (level (rev (column (matrix tr) j)) (retrograde_inversion tr))] else acc)
        [] [0..<12]"
    unfolding trichords_retrograde_inversion_combinatorials_def Let_def level_def trichords_step Partition_3
      ToneRow_matrix_length [OF assms]
    by (rule foldl_cong) auto
  then show ?thesis
    by (simp add: foldl_append_filter Detect_def combinatorial_def MatchesAsMultiset_def
        excludes_level_0_def prime_row_def filter_map o_def)
qed

text \<open>
  Claim C2. For the \<open>ToneRow\<close> of a valid row and segments of four or three, each detector
  returns, in the order of the candidate forms, the label of exactly those candidates of
  its kind whose segment sets are, as a multiset, the segment sets of P0; the detectors for
  P and R leave level 0 out, the detectors for I and RI do not.
\<close>

theorem tetrachords_trichords_detect:
  assumes "ToneRow_init R = Inr tr"
  shows "tetrachords_prime_combinatorials tr = Detect tr 4 KP \<and>
         tetrachords_retrograde_combinatorials tr = Detect tr 4 KR \<and>
         tetrachords_inversion_combinatorials tr = Detect tr 4 KI \<and>
         tetrachords_retrograde_inversion_combinatorials tr = Detect tr 4 KRI \<and>
         trichords_prime_combinatorials tr = Detect tr 3 KP \<and>
         trichords_retrograde_combinatorials tr = Detect tr 3 KR \<and>
         trichords_inversion_combinatorials tr = Detect tr 3 KI \<and>
         trichords_retrograde_inversion_combinatorials tr = Detect tr 3 KRI"
  using tetrachords_prime tetrachords_retrograde tetrachords_inversion [OF assms]
    tetrachords_retrograde_inversion [OF assms]
    trichords_prime trichords_retrograde trichords_inversion [OF assms]
    trichords_retrograde_inversion [OF assms]
  by simp

theorem tetrachords_trichords_detect_witness:
  "ToneRow_init [0, 1, 2, 3, 4, 5, 6, 7, 8, 9, 10, 11] = Inr identity_tonerow \<and>
   Detect identity_tonerow 4 KP = [''P8'', ''P4''] \<and>
   Detect identity_tonerow 4 KR = [''R8'', ''R4''] \<and>
   Detect identity_tonerow 4 KI = [''I3'', ''I7'', ''I11''] \<and>
   Detect identity_tonerow 4 KRI = [''RI3'', ''RI7'', ''RI11''] \<and>
   Detect identity_tonerow 3 KP = [''P9'', ''P6'', ''P3''] \<and>
   Detect identity_tonerow 3 KR = [''R9'', ''R6'', ''R3''] \<and>
   Detect identity_tonerow 3 KI = [''I2'', ''I5'', ''I8'', ''I11''] \<and>
   Detect identity_tonerow 3 KRI = [''RI2'', ''RI5'', ''RI8'', ''RI11''] \<and>
   ToneRow_init [0, 1, 11, 2, 3, 4, 5, 6, 7, 8, 9, 10] = Inr example_tonerow \<and>
   Detect example_tonerow 3 KP = [''P9'', ''P6'', ''P3''] \<and>
   Detect example_tonerow 3 KI = [''I0'', ''I3'', ''I6'', ''I9''] \<and>
   Detect example_tonerow 3 KRI = [''RI0'', ''RI3'', ''RI6'', ''RI9'']"
proof -
  have i: "ToneRow_init [0, 1, 2, 3, 4, 5, 6, 7, 8, 9, 10, 11] = Inr identity_tonerow"
    unfolding identity_tonerow_def by code_simp
  have e: "ToneRow_init [0, 1, 11, 2, 3, 4, 5, 6, 7, 8, 9, 10] = Inr example_tonerow"
    unfolding example_tonerow_def by code_simp
  have "tetrachords_prime_combinatorials identity_tonerow = [''P8'', ''P4'']" by code_simp
  moreover have "tetrachords_retrograde_combinatorials identity_tonerow = [''R8'', ''R4'']"
    by code_simp
  moreover have "tetrachords_inversion_combinatorials identity_tonerow = [''I3'', ''I7'', ''I11'']"
    by code_simp
  moreover have "tetrachords_retrograde_inversion_combinatorials identity_tonerow =
      [''RI3'', ''RI7'', ''RI11'']"
    by code_simp
  moreover have "trichords_prime_combinatorials identity_tonerow = [''P9'', ''P6'', ''P3'']"
    by code_simp
  moreover have "trichords_retrograde_combinatorials identity_tonerow = [''R9'', ''R6'', ''R3'']"
    by code_simp
  moreover have "trichords_inversion_combinatorials identity_tonerow =
      [''I2'', ''I5'', ''I8'', ''I11'']"
    by code_simp
  moreover have "trichords_retrograde_inversion_combinatorials identity_tonerow =
      [''RI2'', ''RI5'', ''RI8'', ''RI11'']"
    by code_simp
  moreover have "trichords_prime_combinatorials example_tonerow = [''P9'', ''P6'', ''P3'']"
    by code_simp
  moreover have "trichords_inversion_combinatorials example_tonerow =
      [''I0'', ''I3'', ''I6'', ''I9'']"
    by code_simp
  moreover have "trichords_retrograde_inversion_combinatorials example_tonerow =
      [''RI0'', ''RI3'', ''RI6'', ''RI9'']"
    by code_simp
  ultimately show ?thesis
    using i e tetrachords_trichords_detect [OF i] tetrachords_trichords_detect [OF e] by simp
qed

section \<open>Enumeration\<close>

lemma length_delete_nth: "i < length pool \<Longrightarrow> length (delete_nth i pool) = length pool - 1"
  by (auto simp: delete_nth_def)

lemma mset_delete_nth:
  "i < length pool \<Longrightarrow> add_mset (pool ! i) (mset (delete_nth i pool)) = mset pool"
proof -
  assume "i < length pool"
  then have "pool = take i pool @ pool ! i # drop (Suc i) pool" by (rule id_take_nth_drop)
  then have "mset pool = mset (take i pool @ pool ! i # drop (Suc i) pool)" by simp
  then show ?thesis by (simp add: delete_nth_def)
qed

lemma sorted_wrt_delete_nth:
  assumes "sorted_wrt P pool" and "i < length pool"
  shows "sorted_wrt P (delete_nth i pool)"
proof -
  from assms(2) have "pool = take i pool @ pool ! i # drop (Suc i) pool"
    by (rule id_take_nth_drop)
  with assms(1) have "sorted_wrt P (take i pool @ pool ! i # drop (Suc i) pool)" by simp
  then show ?thesis by (auto simp: delete_nth_def sorted_wrt_append)
qed

lemma permutations_length: "length (permutations pool) = fact (length pool)"
proof (induction pool rule: permutations.induct)
  case 1
  show ?case by simp
next
  case (2 x xs)
  let ?l = "x # xs"
  have "length (permutations ?l) =
      sum_list (map (\<lambda>i. length (permutations (delete_nth i ?l))) [0..<length ?l])"
    by (simp add: length_concat o_def)
  also have "map (\<lambda>i. length (permutations (delete_nth i ?l))) [0..<length ?l] =
      map (\<lambda>i. fact (length xs)) [0..<length ?l]"
  proof (rule map_cong [OF refl])
    fix i assume "i \<in> set [0..<length ?l]"
    then have i: "i < length ?l" by auto
    from "2.IH" [OF \<open>i \<in> set [0..<length ?l]\<close>]
    have "length (permutations (delete_nth i ?l)) = fact (length (delete_nth i ?l))" .
    with i show "length (permutations (delete_nth i ?l)) = fact (length xs)"
      by (simp add: length_delete_nth)
  qed
  also have "sum_list (map (\<lambda>i. fact (length xs)) [0..<length ?l]) = length ?l * fact (length xs)"
    by (simp add: sum_list_triv)
  finally show ?case by simp
qed

lemma permutations_set: "set (permutations pool) = {ys. mset ys = mset pool}"
proof (induction pool rule: permutations.induct)
  case 1
  show ?case by simp
next
  case (2 x xs)
  let ?l = "x # xs"
  have IH: "set (permutations (delete_nth i ?l)) = {ys. mset ys = mset (delete_nth i ?l)}"
    if "i < length ?l" for i
  proof -
    from that have "i \<in> set [0..<length ?l]" by auto
    then show ?thesis by (rule "2.IH")
  qed
  show ?case
  proof (intro equalityI subsetI)
    fix ys assume "ys \<in> set (permutations ?l)"
    then obtain i zs where i: "i < length ?l" and ys: "ys = ?l ! i # zs"
      and zs: "zs \<in> set (permutations (delete_nth i ?l))"
      by (auto simp del: upt_Suc)
    from zs IH [OF i] have "mset zs = mset (delete_nth i ?l)" by simp
    with ys mset_delete_nth [OF i] have "mset ys = mset ?l" by simp
    then show "ys \<in> {ys. mset ys = mset ?l}" by simp
  next
    fix ys assume "ys \<in> {ys. mset ys = mset ?l}"
    then have m: "mset ys = mset ?l" by simp
    then have "ys \<noteq> []" by auto
    then obtain y zs where ys: "ys = y # zs" by (cases ys) auto
    with m have "y \<in> set ?l" by (metis list.set_intros(1) mset_eq_setD)
    then obtain i where i: "i < length ?l" and y: "?l ! i = y"
      unfolding in_set_conv_nth by blast
    from m ys y mset_delete_nth [OF i] have "mset zs = mset (delete_nth i ?l)"
      by (metis add_mset_remove_trivial mset.simps(2))
    with IH [OF i] have "zs \<in> set (permutations (delete_nth i ?l))" by simp
    with i ys y show "ys \<in> set (permutations ?l)" by (force simp del: upt_Suc)
  qed
qed

lemma sorted_wrt_concat:
  "sorted_wrt P (concat xss) \<longleftrightarrow>
     (\<forall>xs \<in> set xss. sorted_wrt P xs) \<and>
     sorted_wrt (\<lambda>xs ys. \<forall>x \<in> set xs. \<forall>y \<in> set ys. P x y) xss"
  by (induction xss) (auto simp: sorted_wrt_append)

lemma permutations_sorted:
  "sorted_wrt (<) pool \<Longrightarrow> sorted_wrt (<) (permutations pool)"
  for pool :: "'a::linorder list"
proof (induction pool rule: permutations.induct)
  case 1
  show ?case by simp
next
  case (2 x xs)
  let ?l = "x # xs"
  let ?block = "\<lambda>i. map ((#) (?l ! i)) (permutations (delete_nth i ?l))"
  have inner: "sorted_wrt (<) (?block i)" if i: "i < length ?l" for i
  proof -
    have "sorted_wrt (<) (delete_nth i ?l)"
      using "2.prems" i by (rule sorted_wrt_delete_nth)
    moreover from i have "i \<in> set [0..<length ?l]" by auto
    ultimately have "sorted_wrt (<) (permutations (delete_nth i ?l))"
      using "2.IH" by blast
    then show ?thesis by (simp add: sorted_wrt_map)
  qed
  have outer: "\<forall>u \<in> set (?block i). \<forall>v \<in> set (?block j). u < v"
    if "i < j" and "j < length ?l" for i j
  proof -
    from "2.prems" that have "?l ! i < ?l ! j" by (rule sorted_wrt_nth_less)
    then show ?thesis by auto
  qed
  have "sorted_wrt (<) (concat (map ?block [0..<length ?l]))"
    unfolding sorted_wrt_concat
  proof (intro conjI ballI)
    fix b assume "b \<in> set (map ?block [0..<length ?l])"
    then obtain i where "i < length ?l" and "b = ?block i" by (auto simp del: upt_Suc)
    with inner show "sorted_wrt (<) b" by simp
  next
    show "sorted_wrt (\<lambda>xs ys. \<forall>x \<in> set xs. \<forall>y \<in> set ys. x < y) (map ?block [0..<length ?l])"
      unfolding sorted_wrt_map sorted_wrt_iff_nth_less
      using outer by (simp del: upt_Suc)
  qed
  then show ?case by simp
qed

lemma permutations_hd: "permutations pool ! 0 = pool"
proof (induction pool)
  case Nil
  show ?case by simp
next
  case (Cons x xs)
  have ne: "permutations xs \<noteq> []"
    using permutations_length [of xs] by (metis fact_nonzero length_0_conv)
  have "[0..<length (x # xs)] = 0 # [1..<length (x # xs)]"
    by (simp add: upt_rec)
  then have "permutations (x # xs) =
      map ((#) x) (permutations xs) @
      concat (map (\<lambda>i. map ((#) ((x # xs) ! i)) (permutations (delete_nth i (x # xs))))
                [1..<length (x # xs)])"
    by (simp add: delete_nth_def)
  with ne Cons show ?case by (simp add: nth_append)
qed

lemma remaining_pitches_sorted: "sorted_wrt (<) [1..11::int]"
  by (simp add: strict_sorted_iff)

lemma iterator_rows:
  "tonerows_starting_with_zero_iterator = map ((#) 0) (permutations [1..11])"
proof -
  have "take 1 ((replicate 12 (0::int))[0 := 0]) = [0]" by code_simp
  then show ?thesis
    by (simp add: tonerows_starting_with_zero_iterator_def Let_def)
qed

lemma permutations_sorted_distinct:
  "sorted_wrt (<) pool \<Longrightarrow> distinct (permutations pool)"
  for pool :: "'a::linorder list"
  using permutations_sorted [of pool] by (simp add: strict_sorted_iff)

lemma permutation_of_remaining_pitches:
  "mset p = mset [1..11::int] \<longleftrightarrow> length p = 11 \<and> set p = {1..11}"
proof
  assume m: "mset p = mset [1..11]"
  then have "length p = length [1..11::int]" by (rule mset_eq_length)
  moreover from m have "set p = set [1..11::int]" by (rule mset_eq_setD)
  ultimately show "length p = 11 \<and> set p = {1..11}" by simp
next
  assume a: "length p = 11 \<and> set p = {1..11}"
  then have "card (set p) = length p" by simp
  then have "distinct p" by (rule card_distinct)
  moreover have "distinct [1..11::int]" by simp
  ultimately have "set p = set [1..11::int] \<longleftrightarrow> mset p = mset [1..11::int]"
    by (rule set_eq_iff_mset_eq_distinct)
  moreover from a have "set p = set [1..11::int]" by simp
  ultimately show "mset p = mset [1..11]" by blast
qed

lemma zero_row_valid:
  "is_valid_tonerow (0 # p) \<longleftrightarrow> length p = 11 \<and> set p = {1..11}"
proof
  assume v: "is_valid_tonerow (0 # p)"
  then have len: "length p = 11" and s: "insert 0 (set p) = {0..11}"
    by (simp_all add: is_valid_tonerow_iff)
  from v have "distinct (0 # p)" by (rule valid_distinct)
  then have "0 \<notin> set p" by simp
  with s have "set p = {0..11} - {0}" by blast
  also have "\<dots> = {1..11::int}" by auto
  finally show "length p = 11 \<and> set p = {1..11}" using len by simp
next
  assume "length p = 11 \<and> set p = {1..11}"
  moreover have "insert 0 {1..11} = {0..11::int}" by auto
  ultimately show "is_valid_tonerow (0 # p)" by (simp add: is_valid_tonerow_iff)
qed

text \<open>
  Claim C6. The enumerator yields 39916800 = 11! rows; every row is a valid tone row with
  first element 0; the rows are pairwise distinct; and every arrangement of the pitch
  classes 1 to 11 follows the leading 0 in some row.
\<close>

theorem enumerator_complete:
  "length tonerows_starting_with_zero_iterator = 39916800 \<and>
   length tonerows_starting_with_zero_iterator = fact 11 \<and>
   (\<forall>r \<in> set tonerows_starting_with_zero_iterator. is_valid_tonerow r \<and> r ! 0 = 0) \<and>
   distinct tonerows_starting_with_zero_iterator \<and>
   (\<forall>p. length p = 11 \<and> set p = {1..11} \<longrightarrow> 0 # p \<in> set tonerows_starting_with_zero_iterator)"
proof (intro conjI ballI allI impI)
  have "length tonerows_starting_with_zero_iterator = fact (length [1..11::int])"
    by (simp only: iterator_rows length_map permutations_length)
  then show f: "length tonerows_starting_with_zero_iterator = fact 11" by simp
  have "(fact 11 :: nat) = 39916800" by (simp add: fact_numeral)
  with f show "length tonerows_starting_with_zero_iterator = 39916800" by simp
next
  fix r assume "r \<in> set tonerows_starting_with_zero_iterator"
  then obtain p where r: "r = 0 # p" and "mset p = mset [1..11::int]"
    by (auto simp: iterator_rows permutations_set)
  then have "length p = 11 \<and> set p = {1..11}"
    by (simp only: permutation_of_remaining_pitches)
  then have "is_valid_tonerow (0 # p)" by (simp only: zero_row_valid)
  with r show "is_valid_tonerow r" by simp
  from r show "r ! 0 = 0" by simp
next
  have "distinct (permutations [1..11::int])"
    using remaining_pitches_sorted by (rule permutations_sorted_distinct)
  then show "distinct tonerows_starting_with_zero_iterator"
    by (simp add: iterator_rows distinct_map)
next
  fix p :: "int list" assume "length p = 11 \<and> set p = {1..11}"
  then have "mset p = mset [1..11::int]" by (simp only: permutation_of_remaining_pitches)
  then show "0 # p \<in> set tonerows_starting_with_zero_iterator"
    by (simp add: iterator_rows permutations_set)
qed

theorem enumerator_complete_witness:
  "length [1, 2, 3, 4, 5, 6, 7, 8, 9, 10, 11 :: int] = 11 \<and>
   set [1, 2, 3, 4, 5, 6, 7, 8, 9, 10, 11 :: int] = {1..11} \<and>
   [0, 1, 2, 3, 4, 5, 6, 7, 8, 9, 10, 11] \<in> set tonerows_starting_with_zero_iterator \<and>
   is_valid_tonerow [0, 1, 2, 3, 4, 5, 6, 7, 8, 9, 10, 11] \<and>
   [0, 1, 2, 3, 4, 5, 6, 7, 8, 9, 10, 11 :: int] ! 0 = 0"
proof -
  have "[1, 2, 3, 4, 5, 6, 7, 8, 9, 10, 11 :: int] = [1..11]" by code_simp
  then have s: "set [1, 2, 3, 4, 5, 6, 7, 8, 9, 10, 11 :: int] = {1..11}"
    by (simp only: set_upto)
  have l: "length [1, 2, 3, 4, 5, 6, 7, 8, 9, 10, 11 :: int] = 11" by simp
  from enumerator_complete l s
  have m: "0 # [1, 2, 3, 4, 5, 6, 7, 8, 9, 10, 11] \<in> set tonerows_starting_with_zero_iterator"
    by blast
  with enumerator_complete
  have "is_valid_tonerow (0 # [1, 2, 3, 4, 5, 6, 7, 8, 9, 10, 11]) \<and>
        (0 # [1, 2, 3, 4, 5, 6, 7, 8, 9, 10, 11 :: int]) ! 0 = 0"
    by blast
  with l s m show ?thesis by simp
qed

text \<open>
  Claim C10. The first row yielded is the identity row, and the rows are yielded in
  strictly increasing lexicographic order, both as whole rows and read from position 1 on
  (\<open><\<close> on lists is the lexicographic order of \<open>List_Lexorder\<close>).
\<close>

theorem enumerator_lexicographic:
  "tonerows_starting_with_zero_iterator ! 0 = [0, 1, 2, 3, 4, 5, 6, 7, 8, 9, 10, 11] \<and>
   sorted_wrt (<) (map (drop 1) tonerows_starting_with_zero_iterator) \<and>
   sorted_wrt (<) tonerows_starting_with_zero_iterator"
proof (intro conjI)
  have ne: "permutations [1..11::int] \<noteq> []"
    using permutations_length [of "[1..11::int]"] by (metis fact_nonzero length_0_conv)
  then have "0 < length (permutations [1..11::int])" by simp
  then have "map ((#) 0) (permutations [1..11::int]) ! 0 = 0 # permutations [1..11] ! 0"
    by (rule nth_map)
  then have "tonerows_starting_with_zero_iterator ! 0 = 0 # permutations [1..11] ! 0"
    by (simp only: iterator_rows)
  also have "permutations [1..11::int] ! 0 = [1..11]" by (rule permutations_hd)
  also have "[1..11::int] = [1, 2, 3, 4, 5, 6, 7, 8, 9, 10, 11]" by code_simp
  finally show "tonerows_starting_with_zero_iterator ! 0 = [0, 1, 2, 3, 4, 5, 6, 7, 8, 9, 10, 11]" .
next
  have s: "sorted_wrt (<) (permutations [1..11::int])"
    using remaining_pitches_sorted by (rule permutations_sorted)
  have "map (drop 1) tonerows_starting_with_zero_iterator = permutations [1..11]"
    by (simp add: iterator_rows o_def)
  with s show "sorted_wrt (<) (map (drop 1) tonerows_starting_with_zero_iterator)" by simp
  from s show "sorted_wrt (<) tonerows_starting_with_zero_iterator"
    by (simp add: iterator_rows sorted_wrt_map)
qed

end
